theory Spec2Isabelle
  imports Complex_Main
begin

section \<open>JavaScript values\<close>

text \<open>
  A JavaScript \<^verbatim>\<open>number\<close> is a finite value, one of the two infinities, or NaN.
  Finite arithmetic is idealised over the reals: rounding, overflow to an infinity and
  the sign of zero are not modelled.
\<close>

datatype jsnum = Fin real | PInf | NInf | NaN

text \<open>What a call can hand back: a number, \<^verbatim>\<open>null\<close> or \<^verbatim>\<open>undefined\<close>.\<close>

datatype jsval = JNum jsnum | JNull | JUndefined

subsection \<open>Arithmetic on numbers\<close>

text \<open>The infinity a non-zero finite value is taken to; zero gives NaN.\<close>

definition infinity_of :: "real \<Rightarrow> jsnum" where
  "infinity_of s = (if 0 < s then PInf else if s < 0 then NInf else NaN)"

fun jneg :: "jsnum \<Rightarrow> jsnum" where
  "jneg (Fin a) = Fin (- a)"
| "jneg PInf = NInf"
| "jneg NInf = PInf"
| "jneg NaN = NaN"

fun jadd :: "jsnum \<Rightarrow> jsnum \<Rightarrow> jsnum" where
  "jadd NaN _ = NaN"
| "jadd _ NaN = NaN"
| "jadd (Fin a) (Fin b) = Fin (a + b)"
| "jadd PInf NInf = NaN"
| "jadd NInf PInf = NaN"
| "jadd PInf _ = PInf"
| "jadd _ PInf = PInf"
| "jadd NInf _ = NInf"
| "jadd _ NInf = NInf"

definition jsub :: "jsnum \<Rightarrow> jsnum \<Rightarrow> jsnum" where
  "jsub a b = jadd a (jneg b)"

fun jmul :: "jsnum \<Rightarrow> jsnum \<Rightarrow> jsnum" where
  "jmul NaN _ = NaN"
| "jmul _ NaN = NaN"
| "jmul (Fin a) (Fin b) = Fin (a * b)"
| "jmul (Fin a) PInf = infinity_of a"
| "jmul (Fin a) NInf = infinity_of (- a)"
| "jmul PInf (Fin b) = infinity_of b"
| "jmul NInf (Fin b) = infinity_of (- b)"
| "jmul PInf PInf = PInf"
| "jmul NInf NInf = PInf"
| "jmul PInf NInf = NInf"
| "jmul NInf PInf = NInf"

text \<open>
  Division never throws: a finite non-zero value over zero is an infinity, zero over
  zero is NaN. (The divisor's zero is taken as positive.)
\<close>

fun jdiv :: "jsnum \<Rightarrow> jsnum \<Rightarrow> jsnum" where
  "jdiv NaN _ = NaN"
| "jdiv _ NaN = NaN"
| "jdiv (Fin a) (Fin b) = (if b = 0 then infinity_of a else Fin (a / b))"
| "jdiv (Fin a) _ = Fin 0"
| "jdiv PInf (Fin b) = (if 0 \<le> b then PInf else NInf)"
| "jdiv NInf (Fin b) = (if 0 \<le> b then NInf else PInf)"
| "jdiv _ _ = NaN"

text \<open>The remainder \<^verbatim>\<open>%\<close> takes the sign of the dividend.\<close>

definition truncate :: "real \<Rightarrow> int" where
  "truncate r = (if 0 \<le> r then \<lfloor>r\<rfloor> else \<lceil>r\<rceil>)"

fun jmod :: "jsnum \<Rightarrow> jsnum \<Rightarrow> jsnum" where
  "jmod (Fin a) (Fin b) = (if b = 0 then NaN else Fin (a - b * of_int (truncate (a / b))))"
| "jmod (Fin a) PInf = Fin a"
| "jmod (Fin a) NInf = Fin a"
| "jmod _ _ = NaN"

fun jabs :: "jsnum \<Rightarrow> jsnum" where
  "jabs (Fin a) = Fin \<bar>a\<bar>"
| "jabs PInf = PInf"
| "jabs NInf = PInf"
| "jabs NaN = NaN"

text \<open>Comparisons: every comparison with NaN is false.\<close>

fun jlt :: "jsnum \<Rightarrow> jsnum \<Rightarrow> bool" where
  "jlt NaN _ = False"
| "jlt _ NaN = False"
| "jlt (Fin a) (Fin b) = (a < b)"
| "jlt _ NInf = False"
| "jlt PInf _ = False"
| "jlt NInf _ = True"
| "jlt _ PInf = True"

definition jgt :: "jsnum \<Rightarrow> jsnum \<Rightarrow> bool" where
  "jgt a b = jlt b a"

definition jeq :: "jsnum \<Rightarrow> jsnum \<Rightarrow> bool" where
  "jeq a b = (a \<noteq> NaN \<and> a = b)"

text \<open>\<^verbatim>\<open>a <= b\<close> is \<^verbatim>\<open>a < b || a == b\<close> on numbers.\<close>

definition jle :: "jsnum \<Rightarrow> jsnum \<Rightarrow> bool" where
  "jle a b = (jlt a b \<or> jeq a b)"


fun isInteger :: "jsnum \<Rightarrow> bool" where
  "isInteger (Fin a) = (a = of_int \<lfloor>a\<rfloor>)"
| "isInteger _ = False"

text \<open>
  \<^verbatim>\<open>Math.pow(x, y)\<close> and the operator \<^verbatim>\<open>x ** y\<close>, with the special values of
  the language standard.
\<close>

fun jpow :: "jsnum \<Rightarrow> jsnum \<Rightarrow> jsnum" where
  "jpow x (Fin b) =
     (if b = 0 then Fin 1
      else case x of
        NaN \<Rightarrow> NaN
      | Fin a \<Rightarrow>
          (if 0 < a then Fin (a powr b)
           else if a = 0 then (if 0 < b then Fin 0 else PInf)
           else if b = of_int \<lfloor>b\<rfloor> then Fin (power_int a \<lfloor>b\<rfloor>)
           else NaN)
      | PInf \<Rightarrow> (if 0 < b then PInf else Fin 0)
      | NInf \<Rightarrow>
          (if b < 0 then Fin 0
           else if b = of_int \<lfloor>b\<rfloor> \<and> odd \<lfloor>b\<rfloor> then NInf
           else PInf))"
| "jpow _ NaN = NaN"
| "jpow NaN _ = NaN"
| "jpow (Fin a) PInf = (if 1 < \<bar>a\<bar> then PInf else if \<bar>a\<bar> = 1 then NaN else Fin 0)"
| "jpow (Fin a) NInf = (if 1 < \<bar>a\<bar> then Fin 0 else if \<bar>a\<bar> = 1 then NaN else PInf)"
| "jpow _ PInf = PInf"
| "jpow _ NInf = Fin 0"

subsection \<open>The functions of \<^verbatim>\<open>Math\<close>\<close>

text \<open>
  An argument that is missing is \<^verbatim>\<open>undefined\<close>, which arithmetic takes as NaN.
\<close>

definition arg :: "jsnum list \<Rightarrow> nat \<Rightarrow> jsnum" where
  "arg args i = (if i < length args then args ! i else NaN)"

fun Math_sin :: "jsnum \<Rightarrow> jsnum" where
  "Math_sin (Fin a) = Fin (sin a)"
| "Math_sin _ = NaN"

fun Math_cos :: "jsnum \<Rightarrow> jsnum" where
  "Math_cos (Fin a) = Fin (cos a)"
| "Math_cos _ = NaN"

fun Math_tan :: "jsnum \<Rightarrow> jsnum" where
  "Math_tan (Fin a) = jdiv (Fin (sin a)) (Fin (cos a))"
| "Math_tan _ = NaN"

fun Math_asin :: "jsnum \<Rightarrow> jsnum" where
  "Math_asin (Fin a) = (if - 1 \<le> a \<and> a \<le> 1 then Fin (arcsin a) else NaN)"
| "Math_asin _ = NaN"

fun Math_acos :: "jsnum \<Rightarrow> jsnum" where
  "Math_acos (Fin a) = (if - 1 \<le> a \<and> a \<le> 1 then Fin (arccos a) else NaN)"
| "Math_acos _ = NaN"

fun Math_atan :: "jsnum \<Rightarrow> jsnum" where
  "Math_atan (Fin a) = Fin (arctan a)"
| "Math_atan PInf = Fin (pi / 2)"
| "Math_atan NInf = Fin (- pi / 2)"
| "Math_atan NaN = NaN"

fun Math_sinh :: "jsnum \<Rightarrow> jsnum" where
  "Math_sinh (Fin a) = Fin (sinh a)"
| "Math_sinh x = x"

fun Math_cosh :: "jsnum \<Rightarrow> jsnum" where
  "Math_cosh (Fin a) = Fin (cosh a)"
| "Math_cosh x = jabs x"

fun Math_tanh :: "jsnum \<Rightarrow> jsnum" where
  "Math_tanh (Fin a) = Fin (tanh a)"
| "Math_tanh PInf = Fin 1"
| "Math_tanh NInf = Fin (- 1)"
| "Math_tanh NaN = NaN"

fun Math_asinh :: "jsnum \<Rightarrow> jsnum" where
  "Math_asinh (Fin a) = Fin (arsinh a)"
| "Math_asinh x = x"

fun Math_acosh :: "jsnum \<Rightarrow> jsnum" where
  "Math_acosh (Fin a) = (if 1 \<le> a then Fin (arcosh a) else NaN)"
| "Math_acosh PInf = PInf"
| "Math_acosh _ = NaN"

fun Math_atanh :: "jsnum \<Rightarrow> jsnum" where
  "Math_atanh (Fin a) =
     (if \<bar>a\<bar> < 1 then Fin (artanh a) else if a = 1 then PInf else if a = - 1 then NInf else NaN)"
| "Math_atanh _ = NaN"

fun Math_sqrt :: "jsnum \<Rightarrow> jsnum" where
  "Math_sqrt (Fin a) = (if a < 0 then NaN else Fin (sqrt a))"
| "Math_sqrt PInf = PInf"
| "Math_sqrt _ = NaN"

fun Math_cbrt :: "jsnum \<Rightarrow> jsnum" where
  "Math_cbrt (Fin a) = Fin (root 3 a)"
| "Math_cbrt x = x"

fun Math_sign :: "jsnum \<Rightarrow> jsnum" where
  "Math_sign (Fin a) = Fin (sgn a)"
| "Math_sign PInf = Fin 1"
| "Math_sign NInf = Fin (- 1)"
| "Math_sign NaN = NaN"

fun Math_ceil :: "jsnum \<Rightarrow> jsnum" where
  "Math_ceil (Fin a) = Fin (of_int \<lceil>a\<rceil>)"
| "Math_ceil x = x"

fun Math_floor :: "jsnum \<Rightarrow> jsnum" where
  "Math_floor (Fin a) = Fin (of_int \<lfloor>a\<rfloor>)"
| "Math_floor x = x"

fun Math_round :: "jsnum \<Rightarrow> jsnum" where
  "Math_round (Fin a) = Fin (of_int \<lfloor>a + 1 / 2\<rfloor>)"
| "Math_round x = x"

fun Math_trunc :: "jsnum \<Rightarrow> jsnum" where
  "Math_trunc (Fin a) = Fin (of_int (truncate a))"
| "Math_trunc x = x"

fun Math_exp :: "jsnum \<Rightarrow> jsnum" where
  "Math_exp (Fin a) = Fin (exp a)"
| "Math_exp PInf = PInf"
| "Math_exp NInf = Fin 0"
| "Math_exp NaN = NaN"

fun Math_log :: "jsnum \<Rightarrow> jsnum" where
  "Math_log (Fin a) = (if 0 < a then Fin (ln a) else if a = 0 then NInf else NaN)"
| "Math_log PInf = PInf"
| "Math_log _ = NaN"

fun Math_log10 :: "jsnum \<Rightarrow> jsnum" where
  "Math_log10 (Fin a) = (if 0 < a then Fin (log 10 a) else if a = 0 then NInf else NaN)"
| "Math_log10 PInf = PInf"
| "Math_log10 _ = NaN"

definition Math_min :: "jsnum list \<Rightarrow> jsnum" where
  "Math_min args =
     fold (\<lambda>b a. if a = NaN \<or> b = NaN then NaN else if jlt b a then b else a) args PInf"

definition Math_max :: "jsnum list \<Rightarrow> jsnum" where
  "Math_max args =
     fold (\<lambda>b a. if a = NaN \<or> b = NaN then NaN else if jlt a b then b else a) args NInf"

section \<open>Strings\<close>

text \<open>
  A string is a list of code units; the model keeps the code units below 256
  (\<^typ>\<open>char\<close>), so an input with a code unit above U+00FF lies outside it.
\<close>

definition isDigit :: "char \<Rightarrow> bool" where
  "isDigit c = (c \<in> set ''0123456789'')"

definition isLower :: "char \<Rightarrow> bool" where
  "isLower c = (c \<in> set ''abcdefghijklmnopqrstuvwxyz'')"

definition isUpper :: "char \<Rightarrow> bool" where
  "isUpper c = (c \<in> set ''ABCDEFGHIJKLMNOPQRSTUVWXYZ'')"

text \<open>The class \<^verbatim>\<open>\s\<close>, which is also what \<^verbatim>\<open>trim\<close> strips.\<close>

definition isSpace :: "char \<Rightarrow> bool" where
  "isSpace c = (c \<in> set [CHR 0x09, CHR 0x0A, CHR 0x0B, CHR 0x0C, CHR 0x0D, CHR '' '', CHR 0xA0])"

text \<open>The class \<^verbatim>\<open>\w\<close>, on which the word boundary \<^verbatim>\<open>\b\<close> rests.\<close>

definition isWord :: "char \<Rightarrow> bool" where
  "isWord c = (isLower c \<or> isUpper c \<or> isDigit c \<or> c = CHR ''_'')"

definition trim :: "string \<Rightarrow> string" where
  "trim s = rev (dropWhile isSpace (rev (dropWhile isSpace s)))"

text \<open>
  \<^verbatim>\<open>toLowerCase\<close> on the code units below 256: the letters A to Z, and the
  capital letters of the Latin-1 block (U+00C0 to U+00DE without the multiplication
  sign), are mapped to their small letters.
\<close>

definition capitals :: string where
  "capitals = ''ABCDEFGHIJKLMNOPQRSTUVWXYZ'' @
     [CHR 0xC0, CHR 0xC1, CHR 0xC2, CHR 0xC3, CHR 0xC4, CHR 0xC5, CHR 0xC6, CHR 0xC7,
      CHR 0xC8, CHR 0xC9, CHR 0xCA, CHR 0xCB, CHR 0xCC, CHR 0xCD, CHR 0xCE, CHR 0xCF,
      CHR 0xD0, CHR 0xD1, CHR 0xD2, CHR 0xD3, CHR 0xD4, CHR 0xD5, CHR 0xD6,
      CHR 0xD8, CHR 0xD9, CHR 0xDA, CHR 0xDB, CHR 0xDC, CHR 0xDD, CHR 0xDE]"

definition smalls :: string where
  "smalls = ''abcdefghijklmnopqrstuvwxyz'' @
     [CHR 0xE0, CHR 0xE1, CHR 0xE2, CHR 0xE3, CHR 0xE4, CHR 0xE5, CHR 0xE6, CHR 0xE7,
      CHR 0xE8, CHR 0xE9, CHR 0xEA, CHR 0xEB, CHR 0xEC, CHR 0xED, CHR 0xEE, CHR 0xEF,
      CHR 0xF0, CHR 0xF1, CHR 0xF2, CHR 0xF3, CHR 0xF4, CHR 0xF5, CHR 0xF6,
      CHR 0xF8, CHR 0xF9, CHR 0xFA, CHR 0xFB, CHR 0xFC, CHR 0xFD, CHR 0xFE]"

definition lowerChar :: "char \<Rightarrow> char" where
  "lowerChar c = (case map_of (zip capitals smalls) c of Some d \<Rightarrow> d | None \<Rightarrow> c)"

definition toLowerCase :: "string \<Rightarrow> string" where
  "toLowerCase s = map lowerChar s"

text \<open>\<^verbatim>\<open>s.replace(/c/g, r)\<close> for a single character \<open>c\<close>.\<close>

definition replaceChar :: "char \<Rightarrow> string \<Rightarrow> string \<Rightarrow> string" where
  "replaceChar c r s = concat (map (\<lambda>d. if d = c then r else [d]) s)"

text \<open>
  \<^verbatim>\<open>s.replace(/(P)(Q)/g, '$1*$2')\<close> for two character classes: the scan goes left
  to right and resumes after each match, so matches do not overlap.
\<close>

fun insertStar :: "(char \<Rightarrow> bool) \<Rightarrow> (char \<Rightarrow> bool) \<Rightarrow> string \<Rightarrow> string" where
  "insertStar P Q (a # b # cs) =
     (if P a \<and> Q b then a # CHR ''*'' # b # insertStar P Q cs
      else a # insertStar P Q (b # cs))"
| "insertStar P Q cs = cs"

text \<open>
  \<^verbatim>\<open>s.replace(/w1|w2|.../g, r)\<close> for literal words: at each position the first
  alternative that matches is replaced; the third argument counts the characters of a
  match still to be skipped.
\<close>

fun replaceWords :: "string list \<Rightarrow> string \<Rightarrow> nat \<Rightarrow> string \<Rightarrow> string" where
  "replaceWords ws r k [] = []"
| "replaceWords ws r (Suc k) (c # cs) = replaceWords ws r k cs"
| "replaceWords ws r 0 (c # cs) =
     (case find (\<lambda>w. take (length w) (c # cs) = w) ws of
        Some w \<Rightarrow> r @ replaceWords ws r (length w - 1) cs
      | None \<Rightarrow> c # replaceWords ws r 0 cs)"

text \<open>
  The word boundary \<^verbatim>\<open>\b\<close> between the character before a position and the one
  after it (\<open>None\<close> at either end of the text).
\<close>

definition wordBoundary :: "char option \<Rightarrow> char option \<Rightarrow> bool" where
  "wordBoundary p n =
     ((case p of None \<Rightarrow> False | Some c \<Rightarrow> isWord c) \<noteq> (case n of None \<Rightarrow> False | Some c \<Rightarrow> isWord c))"

definition headOption :: "'a list \<Rightarrow> 'a option" where
  "headOption xs = (case xs of [] \<Rightarrow> None | x # _ \<Rightarrow> Some x)"

text \<open>\<^verbatim>\<open>s.replace(/\bw\b/g, r)\<close> for a literal word \<open>w\<close>.\<close>

fun replaceWholeWord :: "string \<Rightarrow> string \<Rightarrow> char option \<Rightarrow> nat \<Rightarrow> string \<Rightarrow> string" where
  "replaceWholeWord w r p k [] = []"
| "replaceWholeWord w r p (Suc k) (c # cs) = replaceWholeWord w r (Some c) k cs"
| "replaceWholeWord w r p 0 (c # cs) =
     (if wordBoundary p (Some c) \<and> take (length w) (c # cs) = w
         \<and> wordBoundary (Some (last w)) (headOption (drop (length w) (c # cs)))
      then r @ replaceWholeWord w r (Some c) (length w - 1) cs
      else c # replaceWholeWord w r (Some c) 0 cs)"

text \<open>
  \<^verbatim>\<open>s.replace(/\b(n1|n2|...)(?=\s*\()/g, (match) => `FN.${match}`)\<close>: a name of the
  list at a word boundary, followed by an opening parenthesis, gets the prefix.
\<close>

fun qualify :: "string list \<Rightarrow> char option \<Rightarrow> nat \<Rightarrow> string \<Rightarrow> string" where
  "qualify names p k [] = []"
| "qualify names p (Suc k) (c # cs) = c # qualify names (Some c) k cs"
| "qualify names p 0 (c # cs) =
     (case (if wordBoundary p (Some c)
            then find (\<lambda>w. take (length w) (c # cs) = w
                       \<and> headOption (dropWhile isSpace (drop (length w) (c # cs))) = Some CHR ''('') names
            else None) of
        Some w \<Rightarrow> ''FN.'' @ c # qualify names (Some c) (length w - 1) cs
      | None \<Rightarrow> c # qualify names (Some c) 0 cs)"

text \<open>\<^verbatim>\<open>s.match(/[a-z]+/g) || []\<close>: the maximal runs of lowercase letters, in order.\<close>

fun runs :: "string \<Rightarrow> string \<Rightarrow> string list" where
  "runs cur [] = (if cur = [] then [] else [cur])"
| "runs cur (c # cs) =
     (if isLower c then runs (cur @ [c]) cs
      else (if cur = [] then [] else [cur]) @ runs [] cs)"

definition identifiers :: "string \<Rightarrow> string list" where
  "identifiers s = runs [] s"

text \<open>
  In the words of the specification: a maximal run of lowercase letters of a text is a
  non-empty stretch of lowercase letters with no lowercase letter next to it.
\<close>

definition maximalRun :: "string \<Rightarrow> string \<Rightarrow> bool" where
  "maximalRun s w =
     (w \<noteq> [] \<and> list_all isLower w
      \<and> (\<exists>pre post. s = pre @ w @ post
            \<and> (pre = [] \<or> \<not> isLower (last pre))
            \<and> (post = [] \<or> \<not> isLower (hd post))))"

section \<open>The host's function constructor\<close>

text \<open>
  \<^verbatim>\<open>new Function(p1, ..., pn, body)\<close> compiles a text into a function, or throws a
  SyntaxError (\<open>None\<close>). A call of the compiled function returns a value or throws.
  An argument is a number, a function on numbers, or an object whose properties are
  functions on numbers.
\<close>

datatype outcome = Returned jsval | Threw

datatype jsarg =
    ANum jsnum
  | AFun "jsnum list \<Rightarrow> jsnum"
  | AObj "(string \<times> (jsnum list \<Rightarrow> jsnum)) list"

type_synonym jsfunction = "jsarg list \<Rightarrow> outcome"

type_synonym host = "string list \<Rightarrow> string \<Rightarrow> jsfunction option"

subsection \<open>The host on arithmetic expressions\<close>

text \<open>
  A model of what the engine does with the function bodies this program builds. It
  covers the expressions made of decimal literals, names, one-level member names, calls,
  parentheses and the operators \<^verbatim>\<open>+ - * / % **\<close>. A text outside this fragment
  (a comment, a regular-expression literal, \<^verbatim>\<open>++\<close> and \<^verbatim>\<open>--\<close>, a line break, a
  literal in another base or with a leading zero, a value that is not a number) is
  answered with an error, which need not be the engine's answer there. The global scope
  holds \<^verbatim>\<open>Math.PI\<close> and \<^verbatim>\<open>Math.E\<close> only.
\<close>

datatype token =
    TNum real | TName string | TOp string | TLParen | TRParen | TComma | TDot

definition isIdentStart :: "char \<Rightarrow> bool" where
  "isIdentStart c = (isLower c \<or> isUpper c \<or> c = CHR ''_'' \<or> c = CHR ''$'')"

definition isIdentPart :: "char \<Rightarrow> bool" where
  "isIdentPart c = (isIdentStart c \<or> isDigit c)"

definition digitValue :: "char \<Rightarrow> nat" where
  "digitValue c = of_char c - 48"

definition decimal :: "string \<Rightarrow> nat" where
  "decimal ds = foldl (\<lambda>n c. 10 * n + digitValue c) 0 ds"

text \<open>
  A decimal literal at the head of the text: its value and the text after it. The
  literal must not run into a name.
\<close>

definition scanNumber :: "string \<Rightarrow> (real \<times> string) option" where
  "scanNumber s =
     (let whole = takeWhile isDigit s;
          r1 = dropWhile isDigit s;
          fraction =
            (case r1 of c # r \<Rightarrow> if c = CHR ''.'' then takeWhile isDigit r else [] | [] \<Rightarrow> []);
          r2 =
            (case r1 of c # r \<Rightarrow> if c = CHR ''.'' then dropWhile isDigit r else r1 | [] \<Rightarrow> [])
      in if whole = [] \<and> fraction = [] then None
         else if 2 \<le> length whole \<and> hd whole = CHR ''0'' then None
         else if r2 \<noteq> [] \<and> isIdentStart (hd r2) then None
         else Some (real (decimal whole) + real (decimal fraction) / 10 ^ length fraction, r2))"

lemma scanNumber_shorter:
  assumes "scanNumber (c # cs) = Some (v, r)"
  shows "length r \<le> length cs"
proof (cases "isDigit c")
  case True
  have "length (dropWhile isDigit (tl (dropWhile isDigit cs))) \<le> length (tl (dropWhile isDigit cs))"
    by (rule length_dropWhile_le)
  also have "\<dots> \<le> length (dropWhile isDigit cs)" by simp
  also have "\<dots> \<le> length cs" by (rule length_dropWhile_le)
  finally have "length (dropWhile isDigit (tl (dropWhile isDigit cs))) \<le> length cs" .
  moreover have "length (dropWhile isDigit cs) \<le> length cs" by (rule length_dropWhile_le)
  ultimately show ?thesis
    using assms True
    by (auto simp: scanNumber_def Let_def split: if_splits list.splits)
next
  case False
  have "length (dropWhile isDigit cs) \<le> length cs" by (rule length_dropWhile_le)
  then show ?thesis
    using assms False
    by (auto simp: scanNumber_def Let_def split: if_splits list.splits)
qed

function lex :: "string \<Rightarrow> token list option" where
  "lex [] = Some []"
| "lex (c # cs) =
     (if c \<in> set [CHR '' '', CHR 0x09, CHR 0x0B, CHR 0x0C, CHR 0xA0] then lex cs
      else if isDigit c \<or> c = CHR ''.'' \<and> cs \<noteq> [] \<and> isDigit (hd cs) then
        (case scanNumber (c # cs) of
           None \<Rightarrow> None
         | Some (v, r) \<Rightarrow> map_option (Cons (TNum v)) (lex r))
      else if isIdentStart c then
        map_option (Cons (TName (c # takeWhile isIdentPart cs))) (lex (dropWhile isIdentPart cs))
      else if c = CHR ''*'' \<and> cs \<noteq> [] \<and> hd cs = CHR ''*'' then
        map_option (Cons (TOp ''**'')) (lex (tl cs))
      else if c \<in> set ''+-'' \<and> cs \<noteq> [] \<and> hd cs = c then None
      else if c = CHR ''/'' \<and> cs \<noteq> [] \<and> hd cs \<in> set ''/*'' then None
      else if c \<in> set ''+-*/%'' then map_option (Cons (TOp [c])) (lex cs)
      else if c = CHR ''('' then map_option (Cons TLParen) (lex cs)
      else if c = CHR '')'' then map_option (Cons TRParen) (lex cs)
      else if c = CHR '','' then map_option (Cons TComma) (lex cs)
      else if c = CHR ''.'' then map_option (Cons TDot) (lex cs)
      else None)"
  by pat_completeness auto
termination
  by (relation "measure length")
     (auto simp: less_Suc_eq_le length_dropWhile_le dest: scanNumber_shorter)

datatype expr =
    Lit real
  | Name string
  | Member string string
  | Call expr "expr list"
  | Unary string expr
  | Binary string expr expr

text \<open>
  The parser follows the grammar of the language: additive over multiplicative over
  exponentiation (right associative, and refused after a unary operator) over unary
  over primary expressions. Every call spends one unit of its first argument.
\<close>

function (sequential) parseAdditive :: "nat \<Rightarrow> token list \<Rightarrow> (expr \<times> token list) option"
  and parseAdditiveRest :: "nat \<Rightarrow> expr \<Rightarrow> token list \<Rightarrow> (expr \<times> token list) option"
  and parseMultiplicative :: "nat \<Rightarrow> token list \<Rightarrow> (expr \<times> token list) option"
  and parseMultiplicativeRest :: "nat \<Rightarrow> expr \<Rightarrow> token list \<Rightarrow> (expr \<times> token list) option"
  and parseExponent :: "nat \<Rightarrow> token list \<Rightarrow> (expr \<times> token list) option"
  and parseUnary :: "nat \<Rightarrow> token list \<Rightarrow> (expr \<times> token list) option"
  and parsePrimary :: "nat \<Rightarrow> token list \<Rightarrow> (expr \<times> token list) option"
  and parseArguments :: "nat \<Rightarrow> token list \<Rightarrow> (expr list \<times> token list) option"
where
  "parseAdditive 0 ts = None"
| "parseAdditive (Suc n) ts =
     (case parseMultiplicative n ts of
        None \<Rightarrow> None
      | Some (l, r) \<Rightarrow> parseAdditiveRest n l r)"
| "parseAdditiveRest 0 l ts = None"
| "parseAdditiveRest (Suc n) l ts =
     (case ts of
        TOp op # r \<Rightarrow>
          if op = ''+'' \<or> op = ''-'' then
            (case parseMultiplicative n r of
               None \<Rightarrow> None
             | Some (e, r') \<Rightarrow> parseAdditiveRest n (Binary op l e) r')
          else Some (l, ts)
      | _ \<Rightarrow> Some (l, ts))"
| "parseMultiplicative 0 ts = None"
| "parseMultiplicative (Suc n) ts =
     (case parseExponent n ts of
        None \<Rightarrow> None
      | Some (l, r) \<Rightarrow> parseMultiplicativeRest n l r)"
| "parseMultiplicativeRest 0 l ts = None"
| "parseMultiplicativeRest (Suc n) l ts =
     (case ts of
        TOp op # r \<Rightarrow>
          if op = ''*'' \<or> op = ''/'' \<or> op = ''%'' then
            (case parseExponent n r of
               None \<Rightarrow> None
             | Some (e, r') \<Rightarrow> parseMultiplicativeRest n (Binary op l e) r')
          else Some (l, ts)
      | _ \<Rightarrow> Some (l, ts))"
| "parseExponent 0 ts = None"
| "parseExponent (Suc n) ts =
     (case ts of
        TOp op # _ \<Rightarrow>
          (case parseUnary n ts of
             None \<Rightarrow> None
           | Some (e, r) \<Rightarrow>
               (case r of
                  TOp op' # _ \<Rightarrow> if op' = ''**'' then None else Some (e, r)
                | _ \<Rightarrow> Some (e, r)))
      | _ \<Rightarrow>
          (case parsePrimary n ts of
             None \<Rightarrow> None
           | Some (b, r) \<Rightarrow>
               (case r of
                  TOp op' # r' \<Rightarrow>
                    if op' = ''**'' then
                      (case parseExponent n r' of
                         None \<Rightarrow> None
                       | Some (e, r'') \<Rightarrow> Some (Binary ''**'' b e, r''))
                    else Some (b, r)
                | _ \<Rightarrow> Some (b, r))))"
| "parseUnary 0 ts = None"
| "parseUnary (Suc n) ts =
     (case ts of
        TOp op # r \<Rightarrow>
          if op = ''+'' \<or> op = ''-'' then
            (case parseUnary n r of
               None \<Rightarrow> None
             | Some (e, r') \<Rightarrow> Some (Unary op e, r'))
          else None
      | _ \<Rightarrow> parsePrimary n ts)"
| "parsePrimary 0 ts = None"
| "parsePrimary (Suc n) ts =
     (case ts of
        TNum v # r \<Rightarrow> Some (Lit v, r)
      | TLParen # r \<Rightarrow>
          (case parseAdditive n r of
             None \<Rightarrow> None
           | Some (e, r') \<Rightarrow> (case r' of TRParen # r'' \<Rightarrow> Some (e, r'') | _ \<Rightarrow> None))
      | TName a # r \<Rightarrow>
          (let (target, r1) =
                 (case r of
                    TDot # TName b # r' \<Rightarrow> (Member a b, r')
                  | _ \<Rightarrow> (Name a, r))
           in case r1 of
                TLParen # r2 \<Rightarrow>
                  (case parseArguments n r2 of
                     None \<Rightarrow> None
                   | Some (args, r3) \<Rightarrow> Some (Call target args, r3))
              | _ \<Rightarrow> Some (target, r1))
      | _ \<Rightarrow> None)"
| "parseArguments 0 ts = None"
| "parseArguments (Suc n) ts =
     (case ts of
        TRParen # r \<Rightarrow> Some ([], r)
      | _ \<Rightarrow>
          (case parseAdditive n ts of
             None \<Rightarrow> None
           | Some (e, r) \<Rightarrow>
               (case r of
                  TRParen # r' \<Rightarrow> Some ([e], r')
                | TComma # r' \<Rightarrow>
                    (case parseArguments n r' of
                       None \<Rightarrow> None
                     | Some (es, r'') \<Rightarrow> Some (e # es, r''))
                | _ \<Rightarrow> None)))"
  by pat_completeness auto
termination
  by (relation "measure (case_sum (case_sum (case_sum fst fst) (case_sum fst fst))
                                  (case_sum (case_sum fst fst) (case_sum fst fst)))") auto

text \<open>A whole text is one expression; six units per token are enough for the descent.\<close>

definition parse :: "token list \<Rightarrow> expr option" where
  "parse ts =
     (case parseAdditive (6 * length ts + 6) ts of
        Some (e, []) \<Rightarrow> Some e
      | _ \<Rightarrow> None)"

definition binary :: "string \<Rightarrow> jsnum \<Rightarrow> jsnum \<Rightarrow> jsnum" where
  "binary op a b =
     (if op = ''+'' then jadd a b
      else if op = ''-'' then jsub a b
      else if op = ''*'' then jmul a b
      else if op = ''/'' then jdiv a b
      else if op = ''%'' then jmod a b
      else jpow a b)"

text \<open>
  Evaluation gives a number, or \<open>None\<close> when the engine throws: a name that is not
  bound (ReferenceError), a call of something that is not a function (TypeError).
\<close>

fun callee :: "(string \<times> jsarg) list \<Rightarrow> expr \<Rightarrow> (jsnum list \<Rightarrow> jsnum) option" where
  "callee env (Name a) = (case map_of env a of Some (AFun f) \<Rightarrow> Some f | _ \<Rightarrow> None)"
| "callee env (Member a b) = (case map_of env a of Some (AObj table) \<Rightarrow> map_of table b | _ \<Rightarrow> None)"
| "callee env _ = None"

fun evalExpr :: "(string \<times> jsarg) list \<Rightarrow> expr \<Rightarrow> jsnum option" where
  "evalExpr env (Lit v) = Some (Fin v)"
| "evalExpr env (Name a) = (case map_of env a of Some (ANum v) \<Rightarrow> Some v | _ \<Rightarrow> None)"
| "evalExpr env (Member a b) =
     (if a = ''Math'' \<and> b = ''PI'' then Some (Fin pi)
      else if a = ''Math'' \<and> b = ''E'' then Some (Fin (exp 1))
      else None)"
| "evalExpr env (Call target args) =
     (case callee env target of
        None \<Rightarrow> None
      | Some f \<Rightarrow> map_option f (those (map (evalExpr env) args)))"
| "evalExpr env (Unary op e) = map_option (if op = ''-'' then jneg else id) (evalExpr env e)"
| "evalExpr env (Binary op l r) =
     (case evalExpr env l of
        None \<Rightarrow> None
      | Some a \<Rightarrow> map_option (binary op a) (evalExpr env r))"

text \<open>
  The two shapes of body the program builds: \<^verbatim>\<open>return E\<close>, and \<^verbatim>\<open>return E;\<close>
  inside a \<^verbatim>\<open>try\<close> whose \<^verbatim>\<open>catch\<close> returns \<^verbatim>\<open>null\<close>.
\<close>

definition tryHead :: string where
  "tryHead =
     CHR 0x0A # replicate 12 CHR '' '' @ ''try {'' @
     CHR 0x0A # replicate 16 CHR '' '' @ ''return ''"

definition tryTail :: string where
  "tryTail =
     '';'' @
     CHR 0x0A # replicate 12 CHR '' '' @ ''} catch (e) {'' @
     CHR 0x0A # replicate 16 CHR '' '' @
       ''return null; // Return null for invalid inputs like sqrt(-1)'' @
     CHR 0x0A # replicate 12 CHR '' '' @ ''}'' @
     CHR 0x0A # replicate 8 CHR '' ''"

definition bodyExpression :: "string \<Rightarrow> (bool \<times> string) option" where
  "bodyExpression body =
     (if take (length tryHead) body = tryHead \<and> length tryHead + length tryTail \<le> length body
         \<and> drop (length body - length tryTail) body = tryTail
      then Some (True, take (length body - length tryHead - length tryTail)
                         (drop (length tryHead) body))
      else if take 7 body = ''return '' then Some (False, drop 7 body)
      else None)"

definition engineFunction :: host where
  "engineFunction params body =
     (case bodyExpression body of
        None \<Rightarrow> None
      | Some (guarded, source) \<Rightarrow>
          (case lex source of
             None \<Rightarrow> None
           | Some [] \<Rightarrow> Some (\<lambda>args. Returned JUndefined)
           | Some ts \<Rightarrow>
               (case parse ts of
                  None \<Rightarrow> None
                | Some e \<Rightarrow>
                    Some (\<lambda>args.
                      case evalExpr (zip params args) e of
                        Some v \<Rightarrow> Returned (JNum v)
                      | None \<Rightarrow> if guarded then Returned JNull else Threw))))"

section \<open>Expression evaluators\<close>

text \<open>
  \<^verbatim>\<open>
  export const safeEvaluate = (expression: string): number | null => {
      const sanitized = expression.replace(/[^0-9+\-*/().\s%]/g, '');
      if (sanitized !== expression.trim()) {
          return null;
      }
      try {
          return new Function(`return ${sanitized}`)();
      } catch (e) {
          console.error("Evaluation error:", e);
          return null;
      }
  };
  \<close>
\<close>

text \<open>
  \<^verbatim>\<open>new Function(p1, ..., pn, body)(a1, ..., an)\<close> inside a \<^verbatim>\<open>try\<close>: the
  SyntaxError of the constructor and an exception of the call are caught alike.
\<close>

definition call :: "host \<Rightarrow> string list \<Rightarrow> string \<Rightarrow> jsarg list \<Rightarrow> outcome" where
  "call newFunction params body args =
     (case newFunction params body of None \<Rightarrow> Threw | Some f \<Rightarrow> f args)"

definition allowedChar :: "char \<Rightarrow> bool" where
  "allowedChar c = (isDigit c \<or> c \<in> set ''+-*/().'' \<or> isSpace c \<or> c = CHR ''%'')"

definition safeEvaluate :: "host \<Rightarrow> string \<Rightarrow> jsval" where
  "safeEvaluate newFunction expression =
     (let sanitized = filter allowedChar expression in
      if sanitized \<noteq> trim expression then JNull
      else case call newFunction [] (''return '' @ sanitized) [] of
             Returned v \<Rightarrow> v
           | Threw \<Rightarrow> JNull)"

text \<open>
  \<^verbatim>\<open>
  export const evaluateScientific = (expression: string, isDeg: boolean = true): number | null => {
      const sanitized = expression
          .replace(/\^/g, '**')
          .replace(/[pi]/g, 'Math.PI')
          .replace(/e/g, 'Math.E');
      const validationRegex = /[^0-9+\-*/().\s%a-z]/g;
      if (validationRegex.test(sanitized.replace(/Math\.PI|Math\.E/g, ''))) {
           console.error("Invalid characters in expression:", sanitized);
           return null;
      }
      try {
          const sin = isDeg ? (d: number) => Math.sin(d * Math.PI / 180) : Math.sin;
          const cos = isDeg ? (d: number) => Math.cos(d * Math.PI / 180) : Math.cos;
          const tan = isDeg ? (d: number) => Math.tan(d * Math.PI / 180) : Math.tan;
          const log = Math.log10;
          const ln = Math.log;
          const sqrt = Math.sqrt;
          return new Function(
              'sin', 'cos', 'tan', 'log', 'ln', 'sqrt',
              `return ${sanitized}`
          )(sin, cos, tan, log, ln, sqrt);
      } catch (e) {
          console.error("Scientific evaluation error:", e);
          return null;
      }
  };
  \<close>
  The second replacement looks for the Greek letter pi (U+03C0, written \<^verbatim>\<open>[pi]\<close> above),
  which is no code unit of the model: on a modelled text it changes nothing.
\<close>

definition scientificChar :: "char \<Rightarrow> bool" where
  "scientificChar c = (allowedChar c \<or> isLower c)"

definition degrees :: "(jsnum \<Rightarrow> jsnum) \<Rightarrow> jsnum \<Rightarrow> jsnum" where
  "degrees f d = f (jdiv (jmul d (Fin pi)) (Fin 180))"

definition scientificText :: "string \<Rightarrow> string" where
  "scientificText expression =
     replaceChar CHR ''e'' ''Math.E'' (replaceChar CHR ''^'' ''**'' expression)"

definition scientificNames :: "string list" where
  "scientificNames = [''sin'', ''cos'', ''tan'', ''log'', ''ln'', ''sqrt'']"

definition scientificScope :: "bool \<Rightarrow> jsarg list" where
  "scientificScope isDeg =
     (let sin = (if isDeg then degrees Math_sin else Math_sin);
          cos = (if isDeg then degrees Math_cos else Math_cos);
          tan = (if isDeg then degrees Math_tan else Math_tan);
          log = Math_log10;
          ln = Math_log;
          sqrt = Math_sqrt
      in map (\<lambda>g. AFun (\<lambda>args. g (arg args 0))) [sin, cos, tan, log, ln, sqrt])"

definition evaluateScientific :: "host \<Rightarrow> string \<Rightarrow> bool \<Rightarrow> jsval" where
  "evaluateScientific newFunction expression isDeg =
     (let sanitized = scientificText expression in
      if \<not> list_all scientificChar (replaceWords [''Math.PI'', ''Math.E''] [] 0 sanitized) then JNull
      else case call newFunction scientificNames (''return '' @ sanitized) (scientificScope isDeg) of
             Returned v \<Rightarrow> v
           | Threw \<Rightarrow> JNull)"

section \<open>Function parser\<close>

datatype error = Error string

text \<open>
  \<^verbatim>\<open>
  const factorial = (n: number): number => {
      if (n < 0 || !Number.isInteger(n)) return NaN;
      if (n > 170) return Infinity; // Avoid overflow for standard double precision
      if (n === 0 || n === 1) return 1;
      let result = 1;
      for (let i = n; i > 1; i--) {
          result *= i;
      }
      return result;
  };
  \<close>
\<close>

fun toNat :: "jsnum \<Rightarrow> nat" where
  "toNat (Fin a) = nat \<lfloor>a\<rfloor>"
| "toNat _ = 0"

definition factorial :: "jsnum \<Rightarrow> jsnum" where
  "factorial n =
     (if jlt n (Fin 0) \<or> \<not> isInteger n then NaN
      else if jgt n (Fin 170) then PInf
      else if jeq n (Fin 0) \<or> jeq n (Fin 1) then Fin 1
      else fold (\<lambda>i result. jmul result (Fin (real i))) (rev [2..<Suc (toNat n)]) (Fin 1))"

text \<open>
  \<^verbatim>\<open>
  const customLog = (x: number, base?: number) => {
      if (base === undefined) return Math.log(x); // natural log
      if (base <= 0 || base === 1) return NaN;
      return Math.log(x) / Math.log(base);
  };
  \<close>
\<close>

definition customLog :: "jsnum list \<Rightarrow> jsnum" where
  "customLog args =
     (if length args < 2 then Math_log (arg args 0)
      else let x = arg args 0; base = arg args 1
           in if jle base (Fin 0) \<or> jeq base (Fin 1) then NaN
              else jdiv (Math_log x) (Math_log base))"

text \<open>The table \<^verbatim>\<open>funcMap\<close> of \<^verbatim>\<open>parseFunction\<close>, in the order of its keys.\<close>

definition unary :: "(jsnum \<Rightarrow> jsnum) \<Rightarrow> jsnum list \<Rightarrow> jsnum" where
  "unary f args = f (arg args 0)"

definition funcMap :: "(string \<times> (jsnum list \<Rightarrow> jsnum)) list" where
  "funcMap =
     [(''sin'', unary Math_sin), (''cos'', unary Math_cos), (''tan'', unary Math_tan),
      (''asin'', unary Math_asin), (''acos'', unary Math_acos), (''atan'', unary Math_atan),
      (''sinh'', unary Math_sinh), (''cosh'', unary Math_cosh), (''tanh'', unary Math_tanh),
      (''asinh'', unary Math_asinh), (''acosh'', unary Math_acosh), (''atanh'', unary Math_atanh),
      (''sqrt'', unary Math_sqrt), (''cbrt'', unary Math_cbrt),
      (''abs'', unary jabs), (''sign'', unary Math_sign),
      (''ceil'', unary Math_ceil), (''floor'', unary Math_floor),
      (''round'', unary Math_round), (''trunc'', unary Math_trunc),
      (''exp'', unary Math_exp), (''pow'', \<lambda>args. jpow (arg args 0) (arg args 1)),
      (''min'', Math_min), (''max'', Math_max),
      (''log'', customLog),
      (''log10'', \<lambda>args. customLog [arg args 0, Fin 10]),
      (''log2'', \<lambda>args. customLog [arg args 0, Fin 2]),
      (''ln'', unary Math_log),
      (''sec'', unary (\<lambda>x. jdiv (Fin 1) (Math_cos x))),
      (''csc'', unary (\<lambda>x. jdiv (Fin 1) (Math_sin x))),
      (''cot'', unary (\<lambda>x. jdiv (Fin 1) (Math_tan x))),
      (''asec'', unary (\<lambda>x. Math_acos (jdiv (Fin 1) x))),
      (''acsc'', unary (\<lambda>x. Math_asin (jdiv (Fin 1) x))),
      (''acot'', unary (\<lambda>x. jsub (jdiv (Fin pi) (Fin 2)) (Math_atan x))),
      (''sech'', unary (\<lambda>x. jdiv (Fin 1) (Math_cosh x))),
      (''csch'', unary (\<lambda>x. jdiv (Fin 1) (Math_sinh x))),
      (''coth'', unary (\<lambda>x. jdiv (Fin 1) (Math_tanh x))),
      (''cosec'', unary (\<lambda>x. jdiv (Fin 1) (Math_sin x))),
      (''fact'', unary factorial),
      (''factorial'', unary factorial)]"

definition knownIdentifiers :: "string list" where
  "knownIdentifiers = map fst funcMap @ [''pi'', ''e'', ''x'']"

text \<open>
  The rewriting of the text in \<^verbatim>\<open>parseFunction\<close>:
  \<^verbatim>\<open>
  let processedStr = funcStr.toLowerCase().replace(/\s/g, '');
  processedStr = processedStr.replace(/(\d)([a-z(])/g, '$1*$2');
  processedStr = processedStr.replace(/(\))([a-z\d(])/g, '$1*$2');
  processedStr = processedStr.replace(/([x])(\d)/g, '$1*$2');
  processedStr = processedStr.replace(/([x])([a-z(])/g, '$1*$2');
  processedStr = processedStr
      .replace(/\^/g, '**')
      .replace(/\bpi\b/g, 'Math.PI')
      .replace(/\be\b/g, 'Math.E');
  const funcNames = Object.keys(funcMap).join('|');
  const funcRegex = new RegExp(`\\b(${funcNames})(?=\\s*\\()`, 'g');
  processedStr = processedStr.replace(funcRegex, (match) => `FN.${match}`);
  \<close>
\<close>

definition letterOrParen :: "char \<Rightarrow> bool" where
  "letterOrParen c = (isLower c \<or> c = CHR ''('')"

definition implicitMultiplication :: "string \<Rightarrow> string" where
  "implicitMultiplication s =
     (let s1 = insertStar isDigit letterOrParen s;
          s2 = insertStar (\<lambda>c. c = CHR '')'') (\<lambda>c. isLower c \<or> isDigit c \<or> c = CHR ''('') s1;
          s3 = insertStar (\<lambda>c. c = CHR ''x'') isDigit s2
      in insertStar (\<lambda>c. c = CHR ''x'') letterOrParen s3)"

definition processed :: "string \<Rightarrow> string" where
  "processed funcStr =
     (let s0 = filter (\<lambda>c. \<not> isSpace c) (toLowerCase funcStr);
          s4 = implicitMultiplication s0;
          s5 = replaceChar CHR ''^'' ''**'' s4;
          s6 = replaceWholeWord ''pi'' ''Math.PI'' None 0 s5;
          s7 = replaceWholeWord ''e'' ''Math.E'' None 0 s6
      in qualify (map fst funcMap) None 0 s7)"

text \<open>
  \<^verbatim>\<open>
  export const parseFunction = (funcStr: string): ((x: number) => number | null) => {
      const funcMap = { ... };
      const knownIdentifiers = new Set([...Object.keys(funcMap), 'pi', 'e', 'x']);
      const identifiersInUse = funcStr.toLowerCase().match(/[a-z]+/g) || [];
      for (const identifier of identifiersInUse) {
          if (!knownIdentifiers.has(identifier)) {
              throw new Error(`Unknown function or variable: "${identifier}"`);
          }
      }
      ...
      try {
          const func = new Function('x', 'FN', `
              try {
                  return ${processedStr};
              } catch (e) {
                  return null; // Return null for invalid inputs like sqrt(-1)
              }
          `);
          const boundFunc = (x: number) => func(x, funcMap);
          boundFunc(1);
          return boundFunc as (x: number) => number | null;
      } catch (e) {
          console.error("Function parsing error:", e);
          throw new Error("Could not parse the function. Please check the syntax.");
      }
  };
  \<close>
\<close>

definition unknownIdentifier :: "string \<Rightarrow> error" where
  "unknownIdentifier identifier =
     Error (''Unknown function or variable: '' @ [CHR 0x22] @ identifier @ [CHR 0x22])"

definition couldNotParse :: error where
  "couldNotParse = Error ''Could not parse the function. Please check the syntax.''"

definition parseFunction :: "host \<Rightarrow> string \<Rightarrow> error + (jsnum \<Rightarrow> outcome)" where
  "parseFunction newFunction funcStr =
     (case find (\<lambda>identifier. identifier \<notin> set knownIdentifiers)
             (identifiers (toLowerCase funcStr)) of
        Some identifier \<Rightarrow> Inl (unknownIdentifier identifier)
      | None \<Rightarrow>
          (case newFunction [''x'', ''FN''] (tryHead @ processed funcStr @ tryTail) of
             None \<Rightarrow> Inl couldNotParse
           | Some func \<Rightarrow>
               (let boundFunc = (\<lambda>x. func [ANum x, AObj funcMap])
                in case boundFunc (Fin 1) of
                     Threw \<Rightarrow> Inl couldNotParse
                   | Returned _ \<Rightarrow> Inr boundFunc)))"

section \<open>Matrix operations\<close>

text \<open>
  \<^verbatim>\<open>row[colIndex]\<close>: reading past the end of an array gives \<^verbatim>\<open>undefined\<close>.
\<close>

definition index :: "jsval list \<Rightarrow> nat \<Rightarrow> jsval" where
  "index row i = (if i < length row then row ! i else JUndefined)"

text \<open>
  \<^verbatim>\<open>
  export const transpose = (m: Matrix): Matrix => {
      if (!m || m.length === 0 || m[0].length === 0) return [];
      return m[0].map((_, colIndex) => m.map(row => row[colIndex]));
  };
  \<close>
  The argument is typed as an array, so \<^verbatim>\<open>!m\<close> is false.
\<close>

definition transpose :: "jsval list list \<Rightarrow> jsval list list" where
  "transpose m =
     (if length m = 0 \<or> length (hd m) = 0 then []
      else map (\<lambda>colIndex. map (\<lambda>row. index row colIndex) m) [0..<length (hd m)])"

text \<open>The data model's invariant on a matrix: all rows have equal length.\<close>

definition rectangular :: "'a list list \<Rightarrow> nat \<Rightarrow> bool" where
  "rectangular m cols = list_all (\<lambda>row. length row = cols) m"
















section \<open>Quadratic equation solver\<close>




section \<open>Prime factorization\<close>

text \<open>
  \<^verbatim>\<open>
  export const primeFactorize = (n: number): number[] => {
      if (!Number.isInteger(n) || n < 2) {
          throw new Error("Input must be an integer greater than 1.");
      }
      if (n > Number.MAX_SAFE_INTEGER) {
          throw new Error("Input number is too large for safe factorization.");
      }
      const factors: number[] = [];
      let num = n;
      while (num % 2 === 0) {
          factors.push(2);
          num /= 2;
      }
      for (let i = 3; i <= Math.sqrt(num); i += 2) {
          while (num % i === 0) {
              factors.push(i);
              num /= i;
          }
      }
      if (num > 2) {
          factors.push(num);
      }
      return factors;
  };
  \<close>
  Past the two guards \<^verbatim>\<open>n\<close> is an integer from 2 to \<open>2\<^sup>5\<^sup>3 - 1\<close>; the loops keep
  \<^verbatim>\<open>num\<close> and \<^verbatim>\<open>i\<close> natural numbers below that bound, on which the remainder,
  the division of a multiple and the sum are exact; the square root is the real one.
  A \<^verbatim>\<open>while\<close> loop may fail to return, so the loops are partial functions and
  \<open>None\<close> stands for a call that does not return.
\<close>

definition MAX_SAFE_INTEGER :: jsnum where
  "MAX_SAFE_INTEGER = Fin 9007199254740991"

text \<open>\<^verbatim>\<open>while (num % i === 0) { factors.push(i); num /= i; }\<close>, for \<open>i = 2\<close> as well.\<close>

partial_function (option) divideOut :: "nat \<Rightarrow> nat list \<Rightarrow> nat \<Rightarrow> (nat list \<times> nat) option" where
  "divideOut i factors num =
     (if num mod i = 0 then divideOut i (factors @ [i]) (num div i)
      else Some (factors, num))"

partial_function (option) trialDivision :: "nat \<Rightarrow> nat list \<Rightarrow> nat \<Rightarrow> (nat list \<times> nat) option" where
  "trialDivision i factors num =
     (if real i \<le> sqrt (real num) then
        Option.bind (divideOut i factors num)
          (\<lambda>(factors', num'). trialDivision (i + 2) factors' num')
      else Some (factors, num))"

definition primeFactorize :: "jsnum \<Rightarrow> (error + nat list) option" where
  "primeFactorize n =
     (if \<not> isInteger n \<or> jlt n (Fin 2) then
        Some (Inl (Error ''Input must be an integer greater than 1.''))
      else if jgt n MAX_SAFE_INTEGER then
        Some (Inl (Error ''Input number is too large for safe factorization.''))
      else
        Option.bind (divideOut 2 [] (toNat n)) (\<lambda>(factors, num).
        Option.bind (trialDivision 3 factors num) (\<lambda>(factors, num).
        Some (Inr (if 2 < num then factors @ [num] else factors)))))"

text \<open>A prime: an integer from 2 on that no smaller integer from 2 on divides.\<close>

definition is_prime :: "nat \<Rightarrow> bool" where
  "is_prime p = (2 \<le> p \<and> (\<forall>d \<in> {2..<p}. \<not> d dvd p))"

section \<open>Evaluating the host model on a text\<close>

lemmas character_classes =
  isDigit_def isLower_def isUpper_def isSpace_def isIdentStart_def isIdentPart_def isWord_def

lemmas lexing = scanNumber_def digitValue_def decimal_def character_classes

lemma function_names:
  "map fst funcMap =
     [''sin'', ''cos'', ''tan'', ''asin'', ''acos'', ''atan'', ''sinh'', ''cosh'', ''tanh'',
      ''asinh'', ''acosh'', ''atanh'', ''sqrt'', ''cbrt'', ''abs'', ''sign'', ''ceil'', ''floor'',
      ''round'', ''trunc'', ''exp'', ''pow'', ''min'', ''max'', ''log'', ''log10'', ''log2'', ''ln'',
      ''sec'', ''csc'', ''cot'', ''asec'', ''acsc'', ''acot'', ''sech'', ''csch'', ''coth'', ''cosec'',
      ''fact'', ''factorial'']"
  by (simp add: funcMap_def)

lemma bodyExpression_try: "bodyExpression (tryHead @ s @ tryTail) = Some (True, s)"
  by (simp add: bodyExpression_def)

lemma engine_try:
  assumes "lex s = Some ts" and "ts \<noteq> []" and "parse ts = Some e"
  shows "engineFunction ps (tryHead @ s @ tryTail) =
    Some (\<lambda>args. case evalExpr (zip ps args) e of
                   Some v \<Rightarrow> Returned (JNum v) | None \<Rightarrow> Returned JNull)"
  using assms unfolding engineFunction_def bodyExpression_try
  by (cases ts) (simp_all cong: option.case_cong)

lemmas evaluation =
  safeEvaluate_def evaluateScientific_def call_def scientificText_def scientificNames_def
  scientificScope_def scientificChar_def replaceChar_def allowedChar_def trim_def
  engineFunction_def bodyExpression_def tryHead_def lexing parse_def eval_nat_numeral
  binary_def infinity_of_def arg_def

section \<open>Properties of the expression evaluators\<close>

lemma dropWhile_keeps: "c \<in> set xs \<Longrightarrow> \<not> P c \<Longrightarrow> c \<in> set (dropWhile P xs)"
  by (induction xs) auto

lemma trim_keeps: "c \<in> set s \<Longrightarrow> \<not> isSpace c \<Longrightarrow> c \<in> set (trim s)"
  by (simp add: trim_def dropWhile_keeps)

lemma length_dropWhile_hd:
  "xs \<noteq> [] \<Longrightarrow> P (hd xs) \<Longrightarrow> length (dropWhile P xs) < length xs"
  by (cases xs) (auto simp: less_Suc_eq_le length_dropWhile_le)

lemma length_trim_le: "length (trim s) \<le> length (dropWhile isSpace s)"
proof -
  have "length (dropWhile isSpace (rev (dropWhile isSpace s)))
          \<le> length (rev (dropWhile isSpace s))"
    by (rule length_dropWhile_le)
  then show ?thesis by (simp add: trim_def)
qed

lemma trim_leading:
  assumes "s \<noteq> []" and "isSpace (hd s)"
  shows "length (trim s) < length s"
proof -
  note length_trim_le
  also have "length (dropWhile isSpace s) < length s"
    using assms by (rule length_dropWhile_hd)
  finally show ?thesis .
qed

lemma trim_trailing:
  assumes "s \<noteq> []" and "isSpace (last s)"
  shows "length (trim s) < length s"
proof (cases "dropWhile isSpace s = []")
  case True
  have "trim s = []" unfolding trim_def True by simp
  then show ?thesis using assms by simp
next
  case False
  then have "last (dropWhile isSpace s) = last s"
    by (metis append_self_conv2 last_appendR takeWhile_dropWhile_id)
  then have "isSpace (hd (rev (dropWhile isSpace s)))"
    using assms False by (simp add: hd_rev)
  then have "length (dropWhile isSpace (rev (dropWhile isSpace s)))
               < length (rev (dropWhile isSpace s))"
    using False by (intro length_dropWhile_hd) simp_all
  also have "\<dots> \<le> length s" by (simp add: length_dropWhile_le)
  finally show ?thesis by (simp add: trim_def)
qed

lemma safeEvaluate_refuses:
  assumes "filter allowedChar expression \<noteq> trim expression"
  shows "safeEvaluate newFunction expression = JNull"
  using assms by (simp add: safeEvaluate_def)

lemma foreign_character_refused:
  assumes "\<not> list_all allowedChar expression"
  shows "filter allowedChar expression \<noteq> trim expression"
proof -
  from assms obtain c where c: "c \<in> set expression" "\<not> allowedChar c"
    by (auto simp: list_all_iff)
  then have "\<not> isSpace c" by (auto simp: allowedChar_def)
  with c have "c \<in> set (trim expression)" by (simp add: trim_keeps)
  moreover have "c \<notin> set (filter allowedChar expression)" using c by simp
  ultimately show ?thesis by metis
qed

lemma safeEvaluate_sum: "safeEvaluate engineFunction ''2+2'' = JNum (Fin 4)"
  by (simp add: evaluation)




text \<open>
  C2. A text with a character outside the allow-list (digits, \<^verbatim>\<open>+ - * / ( ) . %\<close>
  and whitespace) gets \<^verbatim>\<open>null\<close> whatever the host would do with it, and a numeric
  result comes from an entirely allow-listed text only.
\<close>

theorem safeEvaluate_allow_list:
  "(\<not> list_all allowedChar expression \<longrightarrow> safeEvaluate newFunction expression = JNull)
   \<and> (safeEvaluate newFunction expression = JNum v \<longrightarrow> list_all allowedChar expression)"
proof (intro conjI impI)
  assume "\<not> list_all allowedChar expression"
  then show "safeEvaluate newFunction expression = JNull"
    by (intro safeEvaluate_refuses foreign_character_refused)
next
  assume result: "safeEvaluate newFunction expression = JNum v"
  show "list_all allowedChar expression"
  proof (rule ccontr)
    assume "\<not> list_all allowedChar expression"
    then have "safeEvaluate newFunction expression = JNull"
      by (intro safeEvaluate_refuses foreign_character_refused)
    with result show False by simp
  qed
qed

theorem safeEvaluate_allow_list_witness:
  "\<not> list_all allowedChar ''2+a'' \<and> safeEvaluate engineFunction ''2+a'' = JNull
   \<and> safeEvaluate engineFunction ''2+2'' = JNum (Fin 4) \<and> list_all allowedChar ''2+2''"
proof -
  have "\<not> list_all allowedChar ''2+a''"
    by (simp add: allowedChar_def character_classes)
  moreover note safeEvaluate_sum
  ultimately show ?thesis
    using safeEvaluate_allow_list [of "''2+a''" engineFunction]
      safeEvaluate_allow_list [of "''2+2''" engineFunction "Fin 4"]
    by simp
qed

text \<open>
  C10. A text of allow-listed characters that begins or ends with whitespace gets
  \<^verbatim>\<open>null\<close>: the sanitized text keeps the whitespace and so differs from the trimmed one.
\<close>

theorem safeEvaluate_edge_whitespace:
  assumes "list_all allowedChar expression" and "expression \<noteq> []"
    and "isSpace (hd expression) \<or> isSpace (last expression)"
  shows "safeEvaluate newFunction expression = JNull"
proof -
  have "filter allowedChar expression = expression"
    using assms(1) by (simp add: list_all_iff)
  moreover have "length (trim expression) < length expression"
    using assms trim_leading trim_trailing by blast
  ultimately have "filter allowedChar expression \<noteq> trim expression" by auto
  then show ?thesis by (rule safeEvaluate_refuses)
qed

theorem safeEvaluate_edge_whitespace_witness:
  "safeEvaluate engineFunction '' 2+2'' = JNull \<and> safeEvaluate engineFunction ''2+2 '' = JNull
   \<and> safeEvaluate engineFunction ''2+2'' = JNum (Fin 4)"
proof -
  have "safeEvaluate engineFunction '' 2+2'' = JNull"
    by (rule safeEvaluate_edge_whitespace) (simp_all add: allowedChar_def character_classes)
  moreover have "safeEvaluate engineFunction ''2+2 '' = JNull"
    by (rule safeEvaluate_edge_whitespace) (simp_all add: allowedChar_def character_classes)
  ultimately show ?thesis by (simp add: safeEvaluate_sum)
qed

section \<open>Properties of the function parser\<close>

subsection \<open>The identifiers of a text\<close>

lemma runs_sound:
  assumes "list_all isLower cur" and "w \<in> set (runs cur s)"
  shows "w \<noteq> [] \<and> list_all isLower w
      \<and> (\<exists>pre post. cur @ s = pre @ w @ post
            \<and> (pre = [] \<or> \<not> isLower (last pre))
            \<and> (post = [] \<or> \<not> isLower (hd post)))"
  using assms
proof (induction s arbitrary: cur)
  case Nil
  then have "w = cur" "cur \<noteq> []" by (auto split: if_splits)
  then have "cur @ [] = [] @ w @ []" by simp
  then show ?case using Nil.prems(1) \<open>w = cur\<close> \<open>cur \<noteq> []\<close> by blast
next
  case (Cons c cs)
  show ?case
  proof (cases "isLower c")
    case True
    with Cons.prems have "w \<in> set (runs (cur @ [c]) cs)" "list_all isLower (cur @ [c])" by simp_all
    from Cons.IH[OF this(2) this(1)] show ?thesis by simp
  next
    case False
    with Cons.prems have "(cur \<noteq> [] \<and> w = cur) \<or> w \<in> set (runs [] cs)" by (auto split: if_splits)
    then show ?thesis
    proof
      assume "cur \<noteq> [] \<and> w = cur"
      then have "cur @ c # cs = [] @ w @ (c # cs)" by simp
      then show ?thesis using False Cons.prems(1) \<open>cur \<noteq> [] \<and> w = cur\<close>
        by (metis list.sel(1))
    next
      assume "w \<in> set (runs [] cs)"
      from Cons.IH[OF _ this] obtain pre post where
        w: "w \<noteq> []" "list_all isLower w" and
        d: "cs = pre @ w @ post" "pre = [] \<or> \<not> isLower (last pre)" "post = [] \<or> \<not> isLower (hd post)"
        by auto
      have "cur @ c # cs = (cur @ c # pre) @ w @ post" using d by simp
      moreover have "\<not> isLower (last (cur @ c # pre))" using d False by auto
      ultimately show ?thesis using w d(3) by blast
    qed
  qed
qed

lemma runs_complete:
  assumes "list_all isLower cur" and "w \<noteq> []" and "list_all isLower w"
    and "cur @ s = pre @ w @ post"
    and "pre = [] \<or> \<not> isLower (last pre)"
    and "post = [] \<or> \<not> isLower (hd post)"
  shows "w \<in> set (runs cur s)"
  using assms
proof (induction s arbitrary: cur pre)
  case Nil
  then have all: "list_all isLower (pre @ w @ post)" by simp
  have "pre = []"
  proof (rule ccontr)
    assume "pre \<noteq> []"
    then have "last pre \<in> set (pre @ w @ post)" by simp
    with all have "isLower (last pre)" unfolding list_all_iff by blast
    with Nil.prems(5) \<open>pre \<noteq> []\<close> show False by simp
  qed
  moreover have "post = []"
  proof (rule ccontr)
    assume "post \<noteq> []"
    then have "hd post \<in> set (pre @ w @ post)" by simp
    with all have "isLower (hd post)" unfolding list_all_iff by blast
    with Nil.prems(6) \<open>post \<noteq> []\<close> show False by simp
  qed
  ultimately have "cur = w" using Nil.prems(4) by simp
  then show ?case using Nil.prems(2) by simp
next
  case (Cons c cs)
  show ?case
  proof (cases "isLower c")
    case True
    have "w \<in> set (runs (cur @ [c]) cs)"
      using Cons.prems True by (intro Cons.IH [of "cur @ [c]" pre]) simp_all
    with True show ?thesis by simp
  next
    case False
    from Cons.prems(4) obtain us where
      "(cur = pre @ us \<and> us @ c # cs = w @ post) \<or> (cur @ us = pre \<and> c # cs = us @ w @ post)"
      unfolding append_eq_append_conv2 by blast
    then show ?thesis
    proof
      assume A: "cur = pre @ us \<and> us @ c # cs = w @ post"
      have "pre = []"
      proof (rule ccontr)
        assume "pre \<noteq> []"
        then have "last pre \<in> set cur" using A by simp
        with Cons.prems(1) have "isLower (last pre)" unfolding list_all_iff by blast
        with Cons.prems(5) \<open>pre \<noteq> []\<close> show False by simp
      qed
      with A have cur: "cur = us" and eq: "us @ c # cs = w @ post" by simp_all
      from eq obtain vs where
        "(us = w @ vs \<and> vs @ c # cs = post) \<or> (us @ vs = w \<and> c # cs = vs @ post)"
        unfolding append_eq_append_conv2 by blast
      then have "cur = w"
      proof
        assume A1: "us = w @ vs \<and> vs @ c # cs = post"
        have "vs = []"
        proof (rule ccontr)
          assume "vs \<noteq> []"
          then have "hd post = hd vs" "hd vs \<in> set cur" "post \<noteq> []" using A1 cur by auto
          with Cons.prems(1) have "isLower (hd post)" unfolding list_all_iff by metis
          with Cons.prems(6) \<open>post \<noteq> []\<close> show False by simp
        qed
        with A1 cur show ?thesis by simp
      next
        assume A2: "us @ vs = w \<and> c # cs = vs @ post"
        have "vs = []"
        proof (rule ccontr)
          assume "vs \<noteq> []"
          then have "hd vs = c" using A2 by (cases vs) auto
          with \<open>vs \<noteq> []\<close> have "c \<in> set w" using A2 by (cases vs) auto
          with Cons.prems(3) have "isLower c" unfolding list_all_iff by blast
          with False show False by simp
        qed
        with A2 cur show ?thesis by simp
      qed
      with Cons.prems(2) False show ?thesis by simp
    next
      assume B: "cur @ us = pre \<and> c # cs = us @ w @ post"
      have "us \<noteq> []"
      proof
        assume "us = []"
        with B have "c # cs = w @ post" by simp
        with Cons.prems(2) have "c \<in> set w" by (cases w) auto
        with Cons.prems(3) have "isLower c" unfolding list_all_iff by blast
        with False show False by simp
      qed
      then obtain us' where us: "us = c # us'" using B by (cases us) auto
      with B have cs: "[] @ cs = us' @ w @ post" and pre: "pre = cur @ c # us'" by auto
      have "us' = [] \<or> \<not> isLower (last us')"
        using Cons.prems(5) pre by (cases "us' = []") auto
      then have "w \<in> set (runs [] cs)"
        using Cons.prems(2,3,6) cs by (intro Cons.IH [of "[]" us']) simp_all
      with False show ?thesis by simp
    qed
  qed
qed

lemma identifiers_maximal: "w \<in> set (identifiers s) \<longleftrightarrow> maximalRun s w"
proof
  assume "w \<in> set (identifiers s)"
  then show "maximalRun s w"
    using runs_sound [of "[]" w s] by (simp add: identifiers_def maximalRun_def)
next
  assume "maximalRun s w"
  then obtain pre post where "w \<noteq> []" "list_all isLower w" "[] @ s = pre @ w @ post"
    "pre = [] \<or> \<not> isLower (last pre)" "post = [] \<or> \<not> isLower (hd post)"
    unfolding maximalRun_def by auto
  then have "w \<in> set (runs [] s)" by (intro runs_complete [of "[]" w s pre post]) simp_all
  then show "w \<in> set (identifiers s)" by (simp add: identifiers_def)
qed

subsection \<open>Compiling with the host model\<close>

lemmas lowering = toLowerCase_def lowerChar_def capitals_def smalls_def

lemmas rewriting =
  lowering implicitMultiplication_def letterOrParen_def replaceChar_def wordBoundary_def
  headOption_def character_classes

lemma parseFunction_engine:
  assumes "identifiers (toLowerCase s) = ids" and "list_all (\<lambda>w. w \<in> set knownIdentifiers) ids"
    and "processed s = p" and "lex p = Some ts" and "ts \<noteq> []" and "parse ts = Some e"
  shows "parseFunction engineFunction s =
    Inr (\<lambda>x. case evalExpr [(''x'', ANum x), (''FN'', AObj funcMap)] e of
                Some v \<Rightarrow> Returned (JNum v) | None \<Rightarrow> Returned JNull)"
proof -
  have "find (\<lambda>identifier. identifier \<notin> set knownIdentifiers) (identifiers (toLowerCase s)) = None"
    using assms(1,2) by (simp add: find_None_iff list_all_iff)
  moreover have "engineFunction [''x'', ''FN''] (tryHead @ processed s @ tryTail) =
    Some (\<lambda>args. case evalExpr (zip [''x'', ''FN''] args) e of
                   Some v \<Rightarrow> Returned (JNum v) | None \<Rightarrow> Returned JNull)"
    using assms(3-6) by (intro engine_try) simp_all
  ultimately show ?thesis
    by (simp add: parseFunction_def split: option.split)
qed

lemma known_names:
  "''x'' \<in> set knownIdentifiers" "''sin'' \<in> set knownIdentifiers"
  "''sqrt'' \<in> set knownIdentifiers" "''foo'' \<notin> set knownIdentifiers"
  unfolding knownIdentifiers_def function_names by simp_all

lemma table_entries:
  "map_of funcMap ''sin'' = Some (unary Math_sin)"
  "map_of funcMap ''sqrt'' = Some (unary Math_sqrt)"
  by (simp_all add: funcMap_def)

lemma compiled_double:
  "parseFunction engineFunction ''2x'' =
    Inr (\<lambda>x. case evalExpr [(''x'', ANum x), (''FN'', AObj funcMap)]
                     (Binary ''*'' (Lit 2) (Name ''x'')) of
                Some v \<Rightarrow> Returned (JNum v) | None \<Rightarrow> Returned JNull)"
proof (rule parseFunction_engine)
  show "identifiers (toLowerCase ''2x'') = [''x'']"
    by (simp add: identifiers_def lowering isLower_def)
  show "list_all (\<lambda>w. w \<in> set knownIdentifiers) [''x'']"
    by (simp add: known_names)
  show "processed ''2x'' = ''2*x''"
    unfolding processed_def function_names by (simp add: rewriting)
  show "lex ''2*x'' = Some [TNum 2, TOp ''*'', TName ''x'']"
    by (simp add: lexing)
  show "parse [TNum 2, TOp ''*'', TName ''x''] = Some (Binary ''*'' (Lit 2) (Name ''x''))"
    by (simp add: parse_def eval_nat_numeral)
qed simp

lemma compiled_sine:
  "parseFunction engineFunction ''sin(x)'' =
    Inr (\<lambda>x. case evalExpr [(''x'', ANum x), (''FN'', AObj funcMap)]
                     (Call (Member ''FN'' ''sin'') [Name ''x'']) of
                Some v \<Rightarrow> Returned (JNum v) | None \<Rightarrow> Returned JNull)"
proof (rule parseFunction_engine)
  show "identifiers (toLowerCase ''sin(x)'') = [''sin'', ''x'']"
    by (simp add: identifiers_def lowering isLower_def)
  show "list_all (\<lambda>w. w \<in> set knownIdentifiers) [''sin'', ''x'']"
    by (simp add: known_names)
  show "processed ''sin(x)'' = ''FN.sin(x)''"
    unfolding processed_def function_names by (simp add: rewriting)
  show "lex ''FN.sin(x)'' = Some [TName ''FN'', TDot, TName ''sin'', TLParen, TName ''x'', TRParen]"
    by (simp add: lexing)
  show "parse [TName ''FN'', TDot, TName ''sin'', TLParen, TName ''x'', TRParen]
          = Some (Call (Member ''FN'' ''sin'') [Name ''x''])"
    by (simp add: parse_def eval_nat_numeral)
qed simp

lemma compiled_root:
  "parseFunction engineFunction ''sqrt(x)'' =
    Inr (\<lambda>x. case evalExpr [(''x'', ANum x), (''FN'', AObj funcMap)]
                     (Call (Member ''FN'' ''sqrt'') [Name ''x'']) of
                Some v \<Rightarrow> Returned (JNum v) | None \<Rightarrow> Returned JNull)"
proof (rule parseFunction_engine)
  show "identifiers (toLowerCase ''sqrt(x)'') = [''sqrt'', ''x'']"
    by (simp add: identifiers_def lowering isLower_def)
  show "list_all (\<lambda>w. w \<in> set knownIdentifiers) [''sqrt'', ''x'']"
    by (simp add: known_names)
  show "processed ''sqrt(x)'' = ''FN.sqrt(x)''"
    unfolding processed_def function_names by (simp add: rewriting)
  show "lex ''FN.sqrt(x)'' = Some [TName ''FN'', TDot, TName ''sqrt'', TLParen, TName ''x'', TRParen]"
    by (simp add: lexing)
  show "parse [TName ''FN'', TDot, TName ''sqrt'', TLParen, TName ''x'', TRParen]
          = Some (Call (Member ''FN'' ''sqrt'') [Name ''x''])"
    by (simp add: parse_def eval_nat_numeral)
qed simp

lemma compiled_reciprocal:
  "parseFunction engineFunction ''1/x'' =
    Inr (\<lambda>x. case evalExpr [(''x'', ANum x), (''FN'', AObj funcMap)]
                     (Binary ''/'' (Lit 1) (Name ''x'')) of
                Some v \<Rightarrow> Returned (JNum v) | None \<Rightarrow> Returned JNull)"
proof (rule parseFunction_engine)
  show "identifiers (toLowerCase ''1/x'') = [''x'']"
    by (simp add: identifiers_def lowering isLower_def)
  show "list_all (\<lambda>w. w \<in> set knownIdentifiers) [''x'']"
    by (simp add: known_names)
  show "processed ''1/x'' = ''1/x''"
    unfolding processed_def function_names by (simp add: rewriting)
  show "lex ''1/x'' = Some [TNum 1, TOp ''/'', TName ''x'']"
    by (simp add: lexing)
  show "parse [TNum 1, TOp ''/'', TName ''x''] = Some (Binary ''/'' (Lit 1) (Name ''x''))"
    by (simp add: parse_def eval_nat_numeral)
qed simp

text \<open>On the host model the compiled function returns at every argument.\<close>

lemma compiled_function_returns:
  assumes "parseFunction engineFunction s = Inr f"
  shows "f x \<noteq> Threw"
proof -
  from assms obtain func where
    func: "engineFunction [''x'', ''FN''] (tryHead @ processed s @ tryTail) = Some func"
    and f: "f = (\<lambda>x. func [ANum x, AObj funcMap])"
    by (auto simp: parseFunction_def split: option.splits outcome.splits)
  from func have "func args \<noteq> Threw" for args
    unfolding engineFunction_def bodyExpression_try
    by (auto split: option.splits list.splits)
  with f show ?thesis by simp
qed

subsection \<open>The claims\<close>

text \<open>
  C3 at its failing inputs. The compiled function of \<^verbatim>\<open>sqrt(x)\<close> at \<open>-1\<close> returns
  NaN, and that of \<^verbatim>\<open>1/x\<close> at \<open>0\<close> returns an infinity: nothing is thrown, so the
  \<^verbatim>\<open>catch\<close> that returns \<^verbatim>\<open>null\<close> is not reached.
\<close>

theorem parseFunction_domain_errors:
  "(\<exists>f. parseFunction engineFunction ''sqrt(x)'' = Inr f \<and> f (Fin (- 1)) = Returned (JNum NaN))
   \<and> (\<exists>f. parseFunction engineFunction ''1/x'' = Inr f \<and> f (Fin 0) = Returned (JNum PInf))"
  by (simp add: compiled_root compiled_reciprocal table_entries unary_def arg_def binary_def
      infinity_of_def)

text \<open>
  C4. When some maximal run of lowercase letters of the lower-cased input is not in the
  vocabulary, \<^verbatim>\<open>parseFunction\<close> fails, whatever the host, with the error that names
  such a run; \<^verbatim>\<open>foo(x)\<close> fails naming \<^verbatim>\<open>foo\<close>.
\<close>

theorem parseFunction_unknown_identifier:
  "((\<exists>w. maximalRun (toLowerCase funcStr) w \<and> w \<notin> set knownIdentifiers)
     \<longrightarrow> (\<exists>w. maximalRun (toLowerCase funcStr) w \<and> w \<notin> set knownIdentifiers
            \<and> parseFunction newFunction funcStr = Inl (unknownIdentifier w)))
   \<and> parseFunction newFunction ''foo(x)''
       = Inl (Error (''Unknown function or variable: '' @ [CHR 0x22] @ ''foo'' @ [CHR 0x22]))"
proof (intro conjI impI)
  let ?unknown = "\<lambda>identifier. identifier \<notin> set knownIdentifiers"
  assume "\<exists>w. maximalRun (toLowerCase funcStr) w \<and> w \<notin> set knownIdentifiers"
  then have "\<exists>w \<in> set (identifiers (toLowerCase funcStr)). ?unknown w"
    by (auto simp: identifiers_maximal)
  then obtain w where found: "find ?unknown (identifiers (toLowerCase funcStr)) = Some w"
    by (cases "find ?unknown (identifiers (toLowerCase funcStr))") (auto simp: find_None_iff)
  then have "w \<in> set (identifiers (toLowerCase funcStr))" "w \<notin> set knownIdentifiers"
    by (auto simp: find_Some_iff)
  moreover have "parseFunction newFunction funcStr = Inl (unknownIdentifier w)"
    using found by (simp add: parseFunction_def)
  ultimately show "\<exists>w. maximalRun (toLowerCase funcStr) w \<and> w \<notin> set knownIdentifiers
            \<and> parseFunction newFunction funcStr = Inl (unknownIdentifier w)"
    by (auto simp: identifiers_maximal)
next
  have "identifiers (toLowerCase ''foo(x)'') = [''foo'', ''x'']"
    by (simp add: identifiers_def toLowerCase_def lowerChar_def capitals_def smalls_def isLower_def)
  moreover have "''foo'' \<notin> set knownIdentifiers"
    unfolding knownIdentifiers_def function_names by simp
  ultimately show "parseFunction newFunction ''foo(x)''
       = Inl (Error (''Unknown function or variable: '' @ [CHR 0x22] @ ''foo'' @ [CHR 0x22]))"
    by (simp add: parseFunction_def unknownIdentifier_def)
qed

theorem parseFunction_unknown_identifier_witness:
  "maximalRun (toLowerCase ''2*Bar(x)'') ''bar'' \<and> ''bar'' \<notin> set knownIdentifiers
   \<and> parseFunction engineFunction ''2*Bar(x)'' = Inl (unknownIdentifier ''bar'')"
proof -
  define lowered where "lowered = toLowerCase ''2*Bar(x)''"
  have ids: "identifiers lowered = [''bar'', ''x'']"
    unfolding lowered_def by (simp add: identifiers_def lowering isLower_def)
  have bar: "maximalRun lowered ''bar''"
    using identifiers_maximal [of "''bar''" lowered] ids by simp
  have unknown: "''bar'' \<notin> set knownIdentifiers"
    unfolding knownIdentifiers_def function_names by simp
  from bar unknown
  have "\<exists>w. maximalRun lowered w \<and> w \<notin> set knownIdentifiers"
    by blast
  with parseFunction_unknown_identifier [of "''2*Bar(x)''" engineFunction]
  obtain w where w: "maximalRun lowered w" "w \<notin> set knownIdentifiers"
    "parseFunction engineFunction ''2*Bar(x)'' = Inl (unknownIdentifier w)"
    unfolding lowered_def by blast
  from w(1) have "w \<in> set [''bar'', ''x'']"
    using identifiers_maximal [of w lowered] ids by simp
  then have "w = ''bar'' \<or> w = ''x''" by simp
  with w(2) known_names(1) have "w = ''bar''" by blast
  with w(3) bar unknown show ?thesis unfolding lowered_def by simp
qed

subsection \<open>Implicit multiplication\<close>

lemma insertStar_head: "\<not> P c \<Longrightarrow> insertStar P Q (c # ys) = c # insertStar P Q ys"
  by (cases ys) simp_all

lemma insertStar_split:
  assumes "\<And>z. \<not> (P z \<and> Q z)" and "P d" and "Q c"
  shows "insertStar P Q (xs @ d # c # ys)
           = insertStar P Q (xs @ [d]) @ CHR ''*'' # insertStar P Q (c # ys)"
proof -
  have tail: "insertStar P Q (c # ys) = c # insertStar P Q ys"
    using assms by (intro insertStar_head) auto
  have "insertStar P Q (xs @ d # c # ys)
           = insertStar P Q (xs @ [d]) @ CHR ''*'' # c # insertStar P Q ys"
  proof (induction xs rule: induct_list012)
    case 1
    then show ?case using assms by simp
  next
    case (2 x)
    then show ?case using assms by auto
  next
    case (3 x y zs)
    then show ?case by simp
  qed
  then show ?thesis by (simp add: tail)
qed

lemma insertStar_barrier:
  assumes "\<not> P s" and "\<not> Q s"
  shows "insertStar P Q (xs @ s # ys) = insertStar P Q xs @ s # insertStar P Q ys"
proof (induction xs rule: induct_list012)
  case 1
  then show ?case using assms by (simp add: insertStar_head)
next
  case (2 x)
  then show ?case using assms by (simp add: insertStar_head)
next
  case (3 x y zs)
  then show ?case by simp
qed

lemma implicitMultiplication_split:
  assumes "isDigit d" and "letterOrParen c"
  shows "implicitMultiplication (xs @ d # c # ys)
           = implicitMultiplication (xs @ [d]) @ CHR ''*'' # implicitMultiplication (c # ys)"
proof -
  have "\<not> (isDigit z \<and> letterOrParen z)" for z
    by (auto simp: letterOrParen_def character_classes)
  with assms have "insertStar isDigit letterOrParen (xs @ d # c # ys)
        = insertStar isDigit letterOrParen (xs @ [d]) @ CHR ''*'' #
            insertStar isDigit letterOrParen (c # ys)"
    by (intro insertStar_split) simp_all
  moreover have "\<not> isDigit CHR ''*''" "\<not> letterOrParen CHR ''*''" "\<not> isLower CHR ''*''"
    by (simp_all add: letterOrParen_def character_classes)
  ultimately show ?thesis
    by (simp add: implicitMultiplication_def insertStar_barrier)
qed

lemma not_word_star: "\<not> isWord CHR ''*''"
  by (simp add: character_classes)

lemma wordBoundary_nonword:
  "\<not> isWord q \<Longrightarrow> wordBoundary (Some q) n = wordBoundary None n"
  "\<not> isWord q \<Longrightarrow> wordBoundary p (Some q) = wordBoundary p None"
  by (simp_all add: wordBoundary_def)

lemma take_whole:
  assumes "take (length w) xs = w"
  shows "length w \<le> length xs"
proof -
  have "length (take (length w) xs) = length w" by (simp only: assms)
  then show ?thesis by simp
qed

lemma take_word_barrier:
  assumes "s \<notin> set w"
  shows "take (length w) (xs @ s # ys) = w \<longleftrightarrow> take (length w) xs = w"
proof (cases "length w \<le> length xs")
  case True
  then show ?thesis by simp
next
  case False
  then have "take (length w) (xs @ s # ys) ! length xs = s"
    by (simp add: nth_append)
  moreover have "length xs < length w" using False by simp
  ultimately have "take (length w) (xs @ s # ys) \<noteq> w"
    using assms by (metis nth_mem)
  moreover have "take (length w) xs \<noteq> w"
    using False take_whole by blast
  ultimately show ?thesis by simp
qed

lemma replaceWholeWord_previous:
  assumes "\<not> isWord q"
  shows "replaceWholeWord w r (Some q) 0 ys = replaceWholeWord w r None 0 ys"
  using assms by (cases ys) (simp_all add: wordBoundary_nonword)

lemma replaceWholeWord_barrier:
  assumes "s \<notin> set w" and "w \<noteq> []" and "\<not> isWord s" and "k \<le> length xs"
  shows "replaceWholeWord w r p k (xs @ s # ys)
           = replaceWholeWord w r p k xs @ s # replaceWholeWord w r None 0 ys"
  using assms(4)
proof (induction xs arbitrary: p k)
  case Nil
  have "take (length w) (s # ys) \<noteq> w"
    using assms(1,2) by (cases w) auto
  with Nil show ?case
    using assms(3) by (simp add: replaceWholeWord_previous)
next
  case (Cons a xs)
  show ?case
  proof (cases k)
    case (Suc k')
    with Cons show ?thesis by simp
  next
    case 0
    have same: "take (length w) (a # xs @ s # ys) = w \<longleftrightarrow> take (length w) (a # xs) = w"
      using take_word_barrier [OF assms(1), of "a # xs" ys] by simp
    show ?thesis
    proof (cases "take (length w) (a # xs) = w")
      case False
      with same 0 Cons show ?thesis by simp
    next
      case True
      then have len: "length w \<le> length (a # xs)"
        by (rule take_whole)
      then have "headOption (drop (length w) (a # xs @ s # ys))
          = (if drop (length w) (a # xs) = [] then Some s
             else headOption (drop (length w) (a # xs)))"
        using drop_append [of "length w" "a # xs" "s # ys"]
        by (cases "drop (length w) (a # xs)") (auto simp: headOption_def)
      then have "wordBoundary (Some (last w)) (headOption (drop (length w) (a # xs @ s # ys)))
          = wordBoundary (Some (last w)) (headOption (drop (length w) (a # xs)))"
        using assms(3) by (auto simp: wordBoundary_nonword headOption_def)
      moreover have "length w - 1 \<le> length xs" using len by simp
      ultimately show ?thesis
        using 0 same True Cons.IH [of "length w - 1" "Some a"] Cons.IH [of 0 "Some a"]
        by simp
    qed
  qed
qed

lemma qualify_previous:
  assumes "\<not> isWord q"
  shows "qualify names (Some q) 0 ys = qualify names None 0 ys"
  using assms by (cases ys) (simp_all add: wordBoundary_nonword)

lemma lookahead_barrier:
  assumes "\<not> isSpace s" and "s \<noteq> CHR ''(''"
  shows "headOption (dropWhile isSpace (rest @ s # ys)) = Some CHR ''(''
           \<longleftrightarrow> headOption (dropWhile isSpace rest) = Some CHR ''(''"
proof (cases "\<forall>x \<in> set rest. isSpace x")
  case True
  then have "dropWhile isSpace (rest @ s # ys) = dropWhile isSpace (s # ys)"
    by (intro dropWhile_append2) simp
  then have joined: "dropWhile isSpace (rest @ s # ys) = s # ys"
    using assms(1) by simp
  have alone: "dropWhile isSpace rest = []"
    using True by simp
  show ?thesis
    unfolding joined alone using assms(2) by (simp add: headOption_def)
next
  case False
  then have "dropWhile isSpace (rest @ s # ys) = dropWhile isSpace rest @ s # ys"
    "dropWhile isSpace rest \<noteq> []"
    by (auto simp: dropWhile_append)
  then show ?thesis by (cases "dropWhile isSpace rest") (simp_all add: headOption_def)
qed

lemma qualify_barrier:
  assumes "\<forall>w \<in> set names. s \<notin> set w \<and> w \<noteq> []"
    and "\<not> isWord s" and "\<not> isSpace s" and "s \<noteq> CHR ''(''" and "k \<le> length xs"
  shows "qualify names p k (xs @ s # ys)
           = qualify names p k xs @ s # qualify names None 0 ys"
  using assms(5)
proof (induction xs arbitrary: p k)
  case Nil
  have "take (length w) (s # ys) \<noteq> w" if "w \<in> set names" for w
    using assms(1) that by (cases w) auto
  then have "find (\<lambda>w. take (length w) (s # ys) = w
      \<and> headOption (dropWhile isSpace (drop (length w) (s # ys))) = Some CHR ''('') names = None"
    unfolding find_None_iff by blast
  with Nil show ?case
    using assms(2) by (simp add: qualify_previous)
next
  case (Cons a xs)
  show ?case
  proof (cases k)
    case (Suc k')
    with Cons show ?thesis by simp
  next
    case 0
    let ?joined = "\<lambda>w. take (length w) (a # xs @ s # ys) = w
      \<and> headOption (dropWhile isSpace (drop (length w) (a # xs @ s # ys))) = Some CHR ''(''"
    let ?alone = "\<lambda>w. take (length w) (a # xs) = w
      \<and> headOption (dropWhile isSpace (drop (length w) (a # xs))) = Some CHR ''(''"
    have same: "?joined w \<longleftrightarrow> ?alone w" if "w \<in> set names" for w
    proof (cases "take (length w) (a # xs) = w")
      case False
      moreover have "s \<notin> set w" using assms(1) that by simp
      ultimately show ?thesis
        using take_word_barrier [of s w "a # xs" ys] by simp
    next
      case True
      then have "length w \<le> length (a # xs)" by (rule take_whole)
      then have "drop (length w) (a # xs @ s # ys) = drop (length w) (a # xs) @ s # ys"
        using drop_append [of "length w" "a # xs" "s # ys"] by simp
      moreover have "s \<notin> set w" using assms(1) that by simp
      ultimately show ?thesis
        using take_word_barrier [of s w "a # xs" ys] lookahead_barrier [OF assms(3,4)]
        by simp
    qed
    then have found: "find ?joined names = find ?alone names"
      by (intro find_cong) simp_all
    show ?thesis
    proof (cases "wordBoundary p (Some a)")
      case False
      with 0 Cons.IH [of 0 "Some a"] show ?thesis by simp
    next
      case True
      show ?thesis
      proof (cases "find ?alone names")
        case None
        with 0 True found Cons.IH [of 0 "Some a"] show ?thesis by simp
      next
        case (Some w)
        then have "take (length w) (a # xs) = w" by (auto simp: find_Some_iff)
        then have "length w - 1 \<le> length xs" using take_whole [of w "a # xs"] by simp
        with 0 True found Some Cons.IH [of "length w - 1" "Some a"] show ?thesis by simp
      qed
    qed
  qed
qed


lemma replaceChar_barrier:
  "s \<noteq> c \<Longrightarrow> replaceChar c r (xs @ s # ys) = replaceChar c r xs @ s # replaceChar c r ys"
  by (simp add: replaceChar_def)

lemma lowerChar_digit:
  assumes "isDigit d"
  shows "lowerChar d = d"
proof -
  have "length capitals = length smalls"
    by (simp add: capitals_def smalls_def)
  moreover have "d \<notin> set capitals"
    using assms by (auto simp: isDigit_def capitals_def)
  ultimately have "map_of (zip capitals smalls) d = None"
    by (simp only: map_of_zip_is_None simp_thms)
  then show ?thesis by (simp add: lowerChar_def)
qed

lemma digit_not_space: "isDigit d \<Longrightarrow> \<not> isSpace d"
  by (auto simp: isDigit_def isSpace_def)

lemma letterOrParen_not_space: "letterOrParen c \<Longrightarrow> \<not> isSpace c"
  by (auto simp: letterOrParen_def isLower_def isSpace_def)

lemma names_without_star: "\<forall>w \<in> set (map fst funcMap). CHR ''*'' \<notin> set w \<and> w \<noteq> []"
  unfolding function_names by simp

lemma processed_split:
  assumes "isDigit d" and "letterOrParen (lowerChar c)"
  shows "processed (xs @ d # c # ys) = processed (xs @ [d]) @ CHR ''*'' # processed (c # ys)"
proof -
  define clean where "clean = (\<lambda>s. filter (\<lambda>c. \<not> isSpace c) (toLowerCase s))"
  define after where "after = (\<lambda>s. qualify (map fst funcMap) None 0
      (replaceWholeWord ''e'' ''Math.E'' None 0
        (replaceWholeWord ''pi'' ''Math.PI'' None 0
          (replaceChar CHR ''^'' ''**'' s))))"
  have processed: "processed s = after (implicitMultiplication (clean s))" for s
    by (simp add: processed_def clean_def after_def)
  have clean: "clean (xs @ d # c # ys) = clean xs @ d # lowerChar c # clean ys"
    "clean (xs @ [d]) = clean xs @ [d]" "clean (c # ys) = lowerChar c # clean ys"
    using assms
    by (simp_all add: clean_def toLowerCase_def lowerChar_digit digit_not_space
        letterOrParen_not_space)
  have after: "after (u @ CHR ''*'' # v) = after u @ CHR ''*'' # after v" for u v
  proof -
    have "replaceChar CHR ''^'' ''**'' (u @ CHR ''*'' # v)
        = replaceChar CHR ''^'' ''**'' u @ CHR ''*'' # replaceChar CHR ''^'' ''**'' v"
      by (rule replaceChar_barrier) simp
    moreover have "replaceWholeWord w r None 0 (u' @ CHR ''*'' # v')
        = replaceWholeWord w r None 0 u' @ CHR ''*'' # replaceWholeWord w r None 0 v'"
      if "CHR ''*'' \<notin> set w" "w \<noteq> []" for w r u' v'
      using that not_word_star by (intro replaceWholeWord_barrier) simp_all
    moreover have "qualify (map fst funcMap) None 0 (u' @ CHR ''*'' # v')
        = qualify (map fst funcMap) None 0 u' @ CHR ''*'' # qualify (map fst funcMap) None 0 v'"
      for u' v'
      using names_without_star not_word_star
      by (intro qualify_barrier) (simp_all add: isSpace_def)
    ultimately show ?thesis
      unfolding after_def by simp
  qed
  have "implicitMultiplication (clean xs @ d # lowerChar c # clean ys)
      = implicitMultiplication (clean xs @ [d]) @ CHR ''*'' #
          implicitMultiplication (lowerChar c # clean ys)"
    using assms by (rule implicitMultiplication_split)
  then show ?thesis
    unfolding processed clean by (simp only: after)
qed

text \<open>
  C5. Where a digit is followed by a letter or an opening parenthesis, the text that
  \<^verbatim>\<open>parseFunction\<close> compiles is the rewriting of the text up to the digit, the sign
  \<^verbatim>\<open>*\<close>, and the rewriting of the text from the letter or parenthesis on. The function
  compiled from \<^verbatim>\<open>2x\<close> returns 6 at 3, and the one compiled from \<^verbatim>\<open>sin(x)\<close>
  returns 0 at 0.
\<close>

theorem parseFunction_implicit_multiplication:
  "(isDigit d \<and> letterOrParen (lowerChar c) \<longrightarrow>
      processed (xs @ d # c # ys) = processed (xs @ [d]) @ CHR ''*'' # processed (c # ys))
   \<and> (\<exists>f. parseFunction engineFunction ''2x'' = Inr f \<and> f (Fin 3) = Returned (JNum (Fin 6)))
   \<and> (\<exists>f. parseFunction engineFunction ''sin(x)'' = Inr f
          \<and> f (Fin 0) = Returned (JNum (Fin 0)))"
proof (intro conjI impI)
  assume "isDigit d \<and> letterOrParen (lowerChar c)"
  then show "processed (xs @ d # c # ys) = processed (xs @ [d]) @ CHR ''*'' # processed (c # ys)"
    by (intro processed_split) simp_all
next
  show "\<exists>f. parseFunction engineFunction ''2x'' = Inr f \<and> f (Fin 3) = Returned (JNum (Fin 6))"
    by (simp add: compiled_double binary_def)
next
  show "\<exists>f. parseFunction engineFunction ''sin(x)'' = Inr f \<and> f (Fin 0) = Returned (JNum (Fin 0))"
    by (simp add: compiled_sine table_entries unary_def arg_def)
qed

theorem parseFunction_implicit_multiplication_witness:
  "isDigit CHR ''3'' \<and> letterOrParen (lowerChar CHR ''('')
   \<and> processed ''x+3(x)'' = ''x+3*(x)''
   \<and> processed ''2X'' = ''2*x''
   \<and> (\<exists>f. parseFunction engineFunction ''2x'' = Inr f \<and> f (Fin 3) = Returned (JNum (Fin 6)))"
proof -
  have "isDigit CHR ''3'' \<and> letterOrParen (lowerChar CHR ''('')"
    by (simp add: letterOrParen_def lowering character_classes)
  moreover have "isDigit CHR ''2'' \<and> letterOrParen (lowerChar CHR ''X'')"
    by (simp add: letterOrParen_def lowering character_classes)
  moreover have "processed ''x+3'' = ''x+3''" "processed ''(x)'' = ''(x)''"
    "processed ''2'' = ''2''" "processed ''X'' = ''x''"
    unfolding processed_def function_names by (simp_all add: rewriting)
  ultimately show ?thesis
    using parseFunction_implicit_multiplication [of "CHR ''3''" "CHR ''(''" "''x+''" "''x)''"]
      parseFunction_implicit_multiplication [of "CHR ''2''" "CHR ''X''" "[]" "[]"]
    by simp
qed

section \<open>Properties of the quadratic solver\<close>





section \<open>Properties of the prime factorization\<close>

lemma sqrt_bound: "real i \<le> sqrt (real num) \<longleftrightarrow> i * i \<le> num"
proof
  assume "real i \<le> sqrt (real num)"
  then have "(real i)\<^sup>2 \<le> (sqrt (real num))\<^sup>2" by (intro power_mono) simp_all
  then have "real (i * i) \<le> real num" by (simp add: power2_eq_square)
  then show "i * i \<le> num" by (simp only: of_nat_le_iff)
next
  assume "i * i \<le> num"
  then have "real (i * i) \<le> real num" by (simp only: of_nat_le_iff)
  then have "(real i)\<^sup>2 \<le> real num" by (simp add: power2_eq_square)
  then show "real i \<le> sqrt (real num)" by (rule real_le_rsqrt)
qed

lemma is_prime_divisors:
  assumes "is_prime p" and "d dvd p"
  shows "d = 1 \<or> d = p"
proof (rule ccontr)
  assume "\<not> (d = 1 \<or> d = p)"
  moreover have "0 < p" using assms(1) by (simp add: is_prime_def)
  then have "d \<le> p" "d \<noteq> 0" using assms(2) by (auto intro: dvd_imp_le)
  ultimately have "d \<in> {2..<p}" by auto
  with assms show False by (auto simp: is_prime_def)
qed

text \<open>The definition agrees with the usual one: no divisor but 1 and the number itself.\<close>

lemma is_prime_iff: "is_prime p \<longleftrightarrow> 2 \<le> p \<and> (\<forall>d. d dvd p \<longrightarrow> d = 1 \<or> d = p)"
proof
  assume "is_prime p"
  then show "2 \<le> p \<and> (\<forall>d. d dvd p \<longrightarrow> d = 1 \<or> d = p)"
    using is_prime_divisors by (auto simp: is_prime_def)
next
  assume "2 \<le> p \<and> (\<forall>d. d dvd p \<longrightarrow> d = 1 \<or> d = p)"
  then show "is_prime p"
    by (fastforce simp: is_prime_def)
qed

lemma prime_factor_exists: "2 \<le> n \<Longrightarrow> \<exists>p. is_prime p \<and> p dvd n"
proof (induction n rule: less_induct)
  case (less n)
  show ?case
  proof (cases "is_prime n")
    case True
    then show ?thesis by auto
  next
    case False
    with less.prems obtain d where d: "d \<in> {2..<n}" "d dvd n"
      by (auto simp: is_prime_def)
    then obtain p where "is_prime p" "p dvd d"
      using less.IH [of d] by auto
    with d show ?thesis by (meson dvd_trans)
  qed
qed

lemma divideOut_result:
  assumes "0 < num" and "2 \<le> i"
  shows "\<exists>k num'. divideOut i fs num = Some (fs @ replicate k i, num')
           \<and> num = i ^ k * num' \<and> \<not> i dvd num' \<and> 0 < num'"
  using assms(1)
proof (induction num arbitrary: fs rule: less_induct)
  case (less num)
  show ?case
  proof (cases "i dvd num")
    case True
    then obtain q where q: "num = i * q" by (auto simp: dvd_def)
    with less.prems assms(2) have "q < num" "0 < q" by auto
    from less.IH [OF this, of "fs @ [i]"] obtain k num' where
      r: "divideOut i (fs @ [i]) q = Some ((fs @ [i]) @ replicate k i, num')"
        "q = i ^ k * num'" "\<not> i dvd num'" "0 < num'"
      by blast
    have "num div i = q" using q assms(2) by simp
    then have "divideOut i fs num = divideOut i (fs @ [i]) q"
      using True by (subst divideOut.simps) (simp add: dvd_eq_mod_eq_0)
    also have "\<dots> = Some (fs @ replicate (Suc k) i, num')"
      using r(1) by simp
    finally show ?thesis
      using r(2-4) q by (intro exI [of _ "Suc k"] exI [of _ num']) simp
  next
    case False
    then have "divideOut i fs num = Some (fs @ replicate 0 i, num)"
      by (subst divideOut.simps) (simp add: dvd_eq_mod_eq_0)
    with False less.prems show ?thesis
      by (intro exI [of _ 0] exI [of _ num]) simp
  qed
qed

lemma composite_bound:
  assumes "2 \<le> num" and "\<not> is_prime num"
    and "\<And>p. is_prime p \<Longrightarrow> p dvd num \<Longrightarrow> i \<le> p"
  shows "i * i \<le> num"
proof -
  from assms(1,2) obtain d where d: "2 \<le> d" "d < num" "d dvd num"
    by (auto simp: is_prime_def)
  then obtain e where e: "num = d * e" by (auto simp: dvd_def)
  with d have "2 \<le> e" by (cases "e \<le> 1") (auto simp: le_Suc_eq)
  obtain p where p: "is_prime p" "p dvd d" using prime_factor_exists [OF d(1)] by blast
  obtain q where q: "is_prime q" "q dvd e" using prime_factor_exists [OF \<open>2 \<le> e\<close>] by blast
  have "i \<le> p" using p e by (intro assms(3)) auto
  moreover have "i \<le> q" using q e by (intro assms(3)) auto
  moreover have "p \<le> d" using p d by (intro dvd_imp_le) auto
  moreover have "q \<le> e" using q \<open>2 \<le> e\<close> by (intro dvd_imp_le) auto
  ultimately have "i * i \<le> d * e" by (meson mult_le_mono order_trans)
  with e show ?thesis by simp
qed

lemma trialDivision_result:
  assumes "odd i" and "3 \<le> i" and "0 < num"
    and "\<And>p. is_prime p \<Longrightarrow> p dvd num \<Longrightarrow> i \<le> p"
  shows "\<exists>gs num'. trialDivision i fs num = Some (fs @ gs, num')
           \<and> sorted gs \<and> (\<forall>g \<in> set gs. is_prime g \<and> i \<le> g)
           \<and> prod_list gs * num' = num
           \<and> (num' = 1 \<or> is_prime num' \<and> i \<le> num' \<and> (\<forall>g \<in> set gs. g \<le> num'))"
  using assms
proof (induction "Suc num - i" arbitrary: i fs num rule: less_induct)
  case less
  show ?case
  proof (cases "i * i \<le> num")
    case False
    then have stop: "trialDivision i fs num = Some (fs @ [], num)"
      by (subst trialDivision.simps) (simp add: sqrt_bound)
    have "num = 1 \<or> is_prime num \<and> i \<le> num"
    proof (cases "num = 1")
      case True
      then show ?thesis by simp
    next
      case ne: False
      with less.prems(3) have "2 \<le> num" by simp
      then have "is_prime num"
        using composite_bound [of num i] less.prems(4) False by blast
      moreover from this have "i \<le> num" by (intro less.prems(4)) simp_all
      ultimately show ?thesis by simp
    qed
    with stop show ?thesis
      by (intro exI [of _ "[]"] exI [of _ num]) simp
  next
    case True
    from less.prems(2) have "2 \<le> i" by simp
    from divideOut_result [OF less.prems(3) this, of fs] obtain k num1 where
      d: "divideOut i fs num = Some (fs @ replicate k i, num1)"
        "num = i ^ k * num1" "\<not> i dvd num1" "0 < num1"
      by blast
    have prime_i: "is_prime i" if "0 < k"
    proof -
      obtain p where p: "is_prime p" "p dvd i" using prime_factor_exists [OF \<open>2 \<le> i\<close>] by blast
      from that have "i dvd num" using d(2) by (cases k) simp_all
      with p have "i \<le> p" by (intro less.prems(4)) (auto intro: dvd_trans)
      moreover have "p \<le> i" using p \<open>2 \<le> i\<close> by (intro dvd_imp_le) auto
      ultimately show ?thesis using p by simp
    qed
    have next_bound: "i + 2 \<le> p" if "is_prime p" "p dvd num1" for p
    proof -
      have "p dvd num" using that d(2) by simp
      with that have "i \<le> p" by (intro less.prems(4))
      moreover have "p \<noteq> i" using that d(3) by auto
      moreover have "p \<noteq> i + 1"
      proof
        assume "p = i + 1"
        with less.prems(1,2) have "2 dvd p" "2 \<in> {2..<p}" by auto
        with that(1) show False by (auto simp: is_prime_def)
      qed
      ultimately show ?thesis by simp
    qed
    have "i \<le> i * i" by simp
    from this True have "i \<le> num" by (rule order_trans)
    moreover have "num1 \<le> num" using d(2,4) less.prems(3)
      by (metis dvd_imp_le dvd_triv_right)
    ultimately have smaller: "Suc num1 - (i + 2) < Suc num - i" by simp
    have "odd (i + 2)" "3 \<le> i + 2" using less.prems(1,2) by simp_all
    from less.hyps [OF smaller this d(4) next_bound, of "fs @ replicate k i"]
    obtain gs num' where
      r: "trialDivision (i + 2) (fs @ replicate k i) num1 = Some ((fs @ replicate k i) @ gs, num')"
        "sorted gs" "\<forall>g \<in> set gs. is_prime g \<and> i + 2 \<le> g"
        "prod_list gs * num' = num1"
        "num' = 1 \<or> is_prime num' \<and> i + 2 \<le> num' \<and> (\<forall>g \<in> set gs. g \<le> num')"
      by blast
    have "trialDivision i fs num = trialDivision (i + 2) (fs @ replicate k i) num1"
      using True d(1) by (subst trialDivision.simps) (simp add: sqrt_bound)
    then have "trialDivision i fs num = Some (fs @ (replicate k i @ gs), num')"
      using r(1) by simp
    moreover have "sorted (replicate k i @ gs)"
      using r(2,3) by (auto simp: sorted_append sorted_replicate)
    moreover have "\<forall>g \<in> set (replicate k i @ gs). is_prime g \<and> i \<le> g"
      using r(3) prime_i by auto
    moreover have "prod_list (replicate k i @ gs) * num' = num"
      using r(4) d(2) by (simp add: prod_list_replicate mult.assoc)
    moreover have "num' = 1 \<or> is_prime num' \<and> i \<le> num'
        \<and> (\<forall>g \<in> set (replicate k i @ gs). g \<le> num')"
      using r(5) by auto
    ultimately show ?thesis by blast
  qed
qed

lemma is_prime_two: "is_prime 2"
  by (simp add: is_prime_def)

lemma primeFactorize_natural:
  assumes "2 \<le> N" and "real N \<le> 9007199254740991"
  shows "\<exists>fs. primeFactorize (Fin (real N)) = Some (Inr fs)
           \<and> sorted fs \<and> list_all is_prime fs \<and> prod_list fs = N"
proof -
  from assms(1) have "0 < N" by simp
  from divideOut_result [OF this, of 2 "[]"] obtain k num1 where
    d: "divideOut 2 [] N = Some (replicate k 2, num1)" "N = 2 ^ k * num1"
      "\<not> 2 dvd num1" "0 < num1"
    by auto
  have "3 \<le> p" if "is_prime p" "p dvd num1" for p
  proof -
    from that(1) have "2 \<le> p" by (simp add: is_prime_def)
    moreover from that(2) d(3) have "p \<noteq> 2" by auto
    ultimately show ?thesis by simp
  qed
  from trialDivision_result [of 3 num1 "replicate k 2", OF _ _ d(4) this]
  obtain gs num' where
    r: "trialDivision 3 (replicate k 2) num1 = Some (replicate k 2 @ gs, num')"
      "sorted gs" "\<forall>g \<in> set gs. is_prime g \<and> 3 \<le> g"
      "prod_list gs * num' = num1"
      "num' = 1 \<or> is_prime num' \<and> 3 \<le> num' \<and> (\<forall>g \<in> set gs. g \<le> num')"
    by auto
  let ?fs = "if 2 < num' then (replicate k 2 @ gs) @ [num'] else replicate k 2 @ gs"
  have "primeFactorize (Fin (real N)) = Some (Inr ?fs)"
    using assms d(1) r(1)
    by (simp add: primeFactorize_def MAX_SAFE_INTEGER_def jgt_def)
  moreover have "sorted ?fs"
    using r(2,3,5) by (auto simp: sorted_append sorted_replicate)
  moreover have "list_all is_prime ?fs"
    using r(3,5) is_prime_two by (auto simp: list_all_iff)
  moreover have "prod_list ?fs = N"
    using r(4,5) d(2) by (auto simp: prod_list_replicate mult.assoc)
  ultimately show ?thesis by blast
qed

lemma divideOut_divides:
  "num mod i = 0 \<Longrightarrow> divideOut i fs num = divideOut i (fs @ [i]) (num div i)"
  by (subst divideOut.simps) simp

lemma divideOut_leaves: "num mod i \<noteq> 0 \<Longrightarrow> divideOut i fs num = Some (fs, num)"
  by (subst divideOut.simps) simp

lemma trialDivision_continues:
  "i * i \<le> num \<Longrightarrow> trialDivision i fs num =
     Option.bind (divideOut i fs num) (\<lambda>(fs', num'). trialDivision (i + 2) fs' num')"
  by (subst trialDivision.simps) (simp add: sqrt_bound)

lemma trialDivision_stops: "\<not> i * i \<le> num \<Longrightarrow> trialDivision i fs num = Some (fs, num)"
  by (subst trialDivision.simps) (simp add: sqrt_bound)

lemmas factoring =
  primeFactorize_def MAX_SAFE_INTEGER_def jgt_def divideOut_divides divideOut_leaves
  trialDivision_continues trialDivision_stops

text \<open>
  C7. For an integer \<open>n\<close> from 2 up to the largest safe integer, \<^verbatim>\<open>primeFactorize\<close>
  returns, and what it returns is an ascending list of primes whose product is \<open>n\<close>;
  for any other number it fails. 360 gives 2, 2, 2, 3, 3, 5 and 97 gives 97.
\<close>

theorem primeFactorize_correct:
  "(isInteger n \<and> jle (Fin 2) n \<and> jle n MAX_SAFE_INTEGER \<longrightarrow>
      (\<exists>fs. primeFactorize n = Some (Inr fs) \<and> sorted fs \<and> list_all is_prime fs
         \<and> Fin (real (prod_list fs)) = n))
   \<and> (\<not> (isInteger n \<and> jle (Fin 2) n \<and> jle n MAX_SAFE_INTEGER) \<longrightarrow>
      (\<exists>e. primeFactorize n = Some (Inl e)))
   \<and> primeFactorize (Fin 360) = Some (Inr [2, 2, 2, 3, 3, 5])
   \<and> primeFactorize (Fin 97) = Some (Inr [97])"
proof (intro conjI impI)
  assume valid: "isInteger n \<and> jle (Fin 2) n \<and> jle n MAX_SAFE_INTEGER"
  then obtain a where n: "n = Fin a" by (cases n) simp_all
  with valid have a: "a = of_int \<lfloor>a\<rfloor>" "2 \<le> a" "a \<le> 9007199254740991"
    by (auto simp: jle_def jeq_def MAX_SAFE_INTEGER_def)
  define N where "N = nat \<lfloor>a\<rfloor>"
  have "real N = a" using a(1,2) unfolding N_def
    by (metis floor_of_nat nat_int of_int_of_nat_eq of_nat_nat zero_le_floor order_trans zero_le_numeral)
  moreover from this a(2) have "2 \<le> N" by linarith
  ultimately show "\<exists>fs. primeFactorize n = Some (Inr fs) \<and> sorted fs \<and> list_all is_prime fs
         \<and> Fin (real (prod_list fs)) = n"
    using primeFactorize_natural [of N] a(3) n by auto
next
  assume invalid: "\<not> (isInteger n \<and> jle (Fin 2) n \<and> jle n MAX_SAFE_INTEGER)"
  show "\<exists>e. primeFactorize n = Some (Inl e)"
  proof (cases "isInteger n")
    case False
    then show ?thesis by (simp add: primeFactorize_def)
  next
    case True
    then obtain a where n: "n = Fin a" by (cases n) simp_all
    with invalid True have "a < 2 \<or> 9007199254740991 < a"
      by (auto simp: jle_def jeq_def MAX_SAFE_INTEGER_def)
    with n show ?thesis
      by (auto simp: primeFactorize_def MAX_SAFE_INTEGER_def jgt_def)
  qed
next
  show "primeFactorize (Fin 360) = Some (Inr [2, 2, 2, 3, 3, 5])"
    by (simp add: factoring)
next
  show "primeFactorize (Fin 97) = Some (Inr [97])"
    by (simp add: factoring)
qed

theorem primeFactorize_correct_witness:
  "isInteger (Fin 360) \<and> jle (Fin 2) (Fin 360) \<and> jle (Fin 360) MAX_SAFE_INTEGER
   \<and> primeFactorize (Fin 360) = Some (Inr [2, 2, 2, 3, 3, 5])
   \<and> sorted [2, 2, 2, 3, 3, 5 :: nat] \<and> list_all is_prime [2, 2, 2, 3, 3, 5]
   \<and> prod_list [2, 2, 2, 3, 3, 5 :: nat] = 360
   \<and> primeFactorize (Fin (5 / 2)) = Some (Inl (Error ''Input must be an integer greater than 1.''))
   \<and> primeFactorize (Fin 1) = Some (Inl (Error ''Input must be an integer greater than 1.''))
   \<and> primeFactorize (Fin 9007199254740992)
       = Some (Inl (Error ''Input number is too large for safe factorization.''))"
proof -
  have valid: "isInteger (Fin 360) \<and> jle (Fin 2) (Fin 360) \<and> jle (Fin 360) MAX_SAFE_INTEGER"
    by (simp add: jle_def MAX_SAFE_INTEGER_def)
  with primeFactorize_correct [of "Fin 360"] obtain fs where
    "primeFactorize (Fin 360) = Some (Inr fs)" "sorted fs" "list_all is_prime fs"
    "Fin (real (prod_list fs)) = Fin 360"
    by blast
  moreover have "primeFactorize (Fin 360) = Some (Inr [2, 2, 2, 3, 3, 5])"
    using primeFactorize_correct [of "Fin 360"] by blast
  ultimately have "sorted [2, 2, 2, 3, 3, 5 :: nat]" "list_all is_prime [2, 2, 2, 3, 3, 5]"
    by simp_all
  moreover have "\<not> isInteger (Fin (5 / 2))"
  proof -
    have "\<lfloor>5 / 2 :: real\<rfloor> = 2" by linarith
    then show ?thesis by simp
  qed
  ultimately show ?thesis
    using valid by (simp add: factoring)
qed

section \<open>Properties of the matrix operations\<close>







lemma transpose_rows:
  assumes "m \<noteq> []" and "rectangular m c" and "0 < c"
  shows "transpose m = map (\<lambda>j. map (\<lambda>row. index row j) m) [0..<c]"
proof -
  have "length (hd m) = c"
    using assms by (cases m) (auto simp: rectangular_def)
  with assms show ?thesis
    by (simp add: transpose_def)
qed

lemma transpose_twice:
  assumes "m \<noteq> []" and "rectangular m c" and "0 < c"
  shows "transpose (transpose m) = m"
proof -
  let ?again = "map (\<lambda>i. map (\<lambda>row. index row i) (transpose m)) [0..<length m]"
  have rows: "length (m ! i) = c" if "i < length m" for i
    using assms that by (simp add: rectangular_def list_all_length)
  have t: "transpose m = map (\<lambda>j. map (\<lambda>row. index row j) m) [0..<c]"
    using assms by (rule transpose_rows)
  have shape: "length (transpose m) \<noteq> 0" "length (hd (transpose m)) = length m"
    using assms by (simp_all add: t hd_map upt_conv_Cons)
  have "transpose (transpose m) = ?again"
    using shape assms by (simp add: transpose_def[of "transpose m"])
  also have "?again = m"
  proof (rule nth_equalityI)
    show "length ?again = length m" by simp
  next
    fix i assume "i < length ?again"
    then have i: "i < length m" by simp
    show "?again ! i = m ! i"
    proof (rule nth_equalityI)
      show "length (?again ! i) = length (m ! i)"
        using i rows by (simp add: t)
    next
      fix j assume "j < length (?again ! i)"
      then have "j < c" using i by (simp add: t)
      then show "?again ! i ! j = m ! i ! j"
        using i rows by (simp add: t index_def)
    qed
  qed
  finally show ?thesis .
qed

text \<open>
  C9 (as amended). For every matrix whose rows all have the same length, and which is
  either empty or has at least one column, transposing twice gives the matrix back.
\<close>

theorem transpose_involution:
  assumes "rectangular m c" and "m = [] \<or> 0 < c"
  shows "transpose (transpose m) = m"
proof (cases "m = []")
  case True
  then show ?thesis by (simp add: transpose_def)
next
  case False
  with assms show ?thesis by (simp add: transpose_twice)
qed

theorem transpose_involution_witness:
  "transpose (transpose [[JNum (Fin 1), JNum (Fin 2), JNum (Fin 3)],
                         [JNum (Fin 4), JNum (Fin 5), JNum (Fin 6)]])
     = [[JNum (Fin 1), JNum (Fin 2), JNum (Fin 3)], [JNum (Fin 4), JNum (Fin 5), JNum (Fin 6)]]"
  by (rule transpose_involution [where c = 3]) (simp_all add: rectangular_def)

text \<open>
  C9 as stated fails on a matrix with one row and no column: its transpose is the
  empty array, and so is the transpose of that.
\<close>

theorem transpose_involution_counterexample:
  "transpose (transpose [[]]) \<noteq> [[]]"
  by (simp add: transpose_def)

end
